theory Spec2Isabelle
  imports Main "HOL-Library.Sublist"
begin

section \<open>Text: Python strings as lists of code points\<close>

text \<open>
  A Python \<open>str\<close> is a sequence of Unicode code points, so a string is a list of
  natural numbers; \<open>len\<close> is \<open>length\<close>. The bullet glyph U+2022 is one code point.
  \<open>str\<close> turns a HOL literal (ASCII) into such a list. Whitespace is the set that
  \<open>str.isspace\<close>, \<open>str.strip\<close> and the regex class \<open>\s\<close> share.
\<close>

type_synonym pystr = "nat list"

definition str :: "string \<Rightarrow> pystr" where
  "str cs = map of_char cs"

definition bullet_glyph :: nat where
  "bullet_glyph = 8226"

definition is_space :: "nat \<Rightarrow> bool" where
  "is_space c = ((9 \<le> c \<and> c \<le> 13) \<or> (28 \<le> c \<and> c \<le> 32) \<or> c = 133 \<or> c = 160
     \<or> c = 5760 \<or> (8192 \<le> c \<and> c \<le> 8202) \<or> c = 8232 \<or> c = 8233 \<or> c = 8239
     \<or> c = 8287 \<or> c = 12288)"

text \<open>
  What the code takes from Python and its libraries and what no file of the repository
  holds is a parameter of the model: \<open>str.upper\<close>, \<open>str.lower\<close> and \<open>str.isupper\<close>,
  which follow the Unicode character database; the regex class \<open>\d\<close>, which is
  every Unicode decimal digit; and the characters that the XML library behind
  \<open>add_run\<close> accepts in a text. Every function that depends on one of them takes the
  tables as its first argument, and the general theorems hold for all tables.
\<close>

record tables =
  str_upper :: "pystr \<Rightarrow> pystr"
  str_lower :: "pystr \<Rightarrow> pystr"
  str_isupper :: "pystr \<Rightarrow> bool"
  re_digit :: "nat \<Rightarrow> bool"
  xml_char :: "nat \<Rightarrow> bool"

text \<open>
  The tables restricted to ASCII letters and digits, used only to run the model at a
  concrete input: they agree with Python on every string whose letters and digits are
  ASCII (the bullet glyph is caseless and no digit). \<open>isupper\<close> asks for a cased
  character and for no lower-case one. The XML library refuses the control characters
  other than tab, line feed and carriage return, the surrogates, U+FFFE and U+FFFF.
\<close>

definition is_upper_cp :: "nat \<Rightarrow> bool" where
  "is_upper_cp c = (65 \<le> c \<and> c \<le> 90)"

definition is_lower_cp :: "nat \<Rightarrow> bool" where
  "is_lower_cp c = (97 \<le> c \<and> c \<le> 122)"

definition upper_cp :: "nat \<Rightarrow> nat" where
  "upper_cp c = (if is_lower_cp c then c - 32 else c)"

definition lower_cp :: "nat \<Rightarrow> nat" where
  "lower_cp c = (if is_upper_cp c then c + 32 else c)"

definition ascii_digit :: "nat \<Rightarrow> bool" where
  "ascii_digit c = (48 \<le> c \<and> c \<le> 57)"

definition xml_char_ok :: "nat \<Rightarrow> bool" where
  "xml_char_ok c =
     (c = 9 \<or> c = 10 \<or> c = 13 \<or> (32 \<le> c \<and> c < 55296)
      \<or> (57344 \<le> c \<and> c \<noteq> 65534 \<and> c \<noteq> 65535))"

definition ascii_tables :: tables where
  "ascii_tables =
     \<lparr>str_upper = map upper_cp,
      str_lower = map lower_cp,
      str_isupper = (\<lambda>s. list_ex is_upper_cp s \<and> \<not> list_ex is_lower_cp s),
      re_digit = ascii_digit,
      xml_char = xml_char_ok\<rparr>"

definition py_strip :: "pystr \<Rightarrow> pystr" where
  "py_strip s = rev (dropWhile is_space (rev (dropWhile is_space s)))"

text \<open>\<open>sub in s\<close>, \<open>s.startswith(p)\<close> and \<open>s.endswith(p)\<close>.\<close>

definition str_in :: "pystr \<Rightarrow> pystr \<Rightarrow> bool" where
  "str_in sub s = sublist sub s"

definition startswith :: "pystr \<Rightarrow> pystr \<Rightarrow> bool" where
  "startswith s p = prefix p s"

definition endswith :: "pystr \<Rightarrow> pystr \<Rightarrow> bool" where
  "endswith s p = suffix p s"

text \<open>\<open>s.split('\n')\<close> and \<open>'\n'.join(ls)\<close>; the line feed is code point 10.\<close>

fun split_nl :: "pystr \<Rightarrow> pystr list" where
  "split_nl [] = [[]]"
| "split_nl (c # cs) =
     (if c = 10 then [] # split_nl cs
      else (case split_nl cs of [] \<Rightarrow> [[c]] | l # ls \<Rightarrow> (c # l) # ls))"

fun join_nl :: "pystr list \<Rightarrow> pystr" where
  "join_nl [] = []"
| "join_nl [l] = l"
| "join_nl (l # m # ls) = l @ [10] @ join_nl (m # ls)"

text \<open>\<open>s.split()\<close>: the maximal runs of non-whitespace characters.\<close>

fun split_ws_acc :: "pystr \<Rightarrow> pystr \<Rightarrow> pystr list" where
  "split_ws_acc w [] = (if w = [] then [] else [w])"
| "split_ws_acc w (c # cs) =
     (if is_space c then (if w = [] then split_ws_acc [] cs else w # split_ws_acc [] cs)
      else split_ws_acc (w @ [c]) cs)"

definition split_ws :: "pystr \<Rightarrow> pystr list" where
  "split_ws s = split_ws_acc [] s"

section \<open>Documents\<close>

text \<open>
  A document is its ordered sequence of paragraphs. A paragraph has paragraph-level
  properties and a sequence of runs, each run a text with character-level properties;
  \<open>pid\<close> stands for the identity of the paragraph object. An unset property is
  \<open>None\<close>, so \<open>run.bold = False\<close> (\<open>Some False\<close>) differs from a run whose weight was
  never set.
\<close>

datatype alignment = LEFT | CENTER | RIGHT | JUSTIFY

record rpr =
  font_name :: "string option"
  font_size :: "nat option"
  bold :: "bool option"
  italic :: "bool option"
  underline :: "bool option"

record run =
  rtext :: pystr
  rprops :: rpr

record ppr =
  align :: "alignment option"
  space_before :: "nat option"
  space_after :: "nat option"
  indent :: "int option"
  numpr :: "(nat \<times> nat) option"

record para =
  pid :: nat
  pprops :: ppr
  runs :: "run list"

text \<open>\<open>paragraph.text\<close>: the texts of the runs, concatenated.\<close>

definition ptext :: "para \<Rightarrow> pystr" where
  "ptext p = concat (map rtext (runs p))"

text \<open>
  Modelled from the spec: \<open>paragraph_xml_signature(p, ignore_text=True)\<close>, whose body is
  not among the sources. The signature holds the paragraph properties (alignment,
  spacing, indentation, numbering) and, in run order, the properties of every run; it
  holds no text.
\<close>

definition paragraph_xml_signature :: "para \<Rightarrow> ppr \<times> rpr list" where
  "paragraph_xml_signature p = (pprops p, map rprops (runs p))"

section \<open>Header recognition\<close>

text \<open>\<open>ResumeTailor._is_all_caps_header\<close> (automated_resume_tailor.py).\<close>

definition is_all_caps_header :: "tables \<Rightarrow> pystr \<Rightarrow> bool" where
  "is_all_caps_header U text =
     (let t = py_strip text in str_isupper U t \<and> 0 < length t \<and> length t \<le> 48)"

text \<open>\<open>ResumeTextConverter._is_section_header\<close> (resume_txt_converter.py).\<close>

definition section_keywords :: "pystr list" where
  "section_keywords =
     [str ''EDUCATION'', str ''PROFESSIONAL EXPERIENCE'', str ''EXPERIENCE'',
      str ''TECHNICAL SKILLS'', str ''SKILLS'', str ''CORE SKILLS'', str ''SUMMARY'',
      str ''PROJECTS'']"

definition is_section_header :: "tables \<Rightarrow> pystr \<Rightarrow> bool" where
  "is_section_header U text =
     (let text_upper = py_strip (str_upper U text)
      in list_ex (\<lambda>keyword. str_in keyword text_upper) section_keywords)"

section \<open>The structured-text codec (resume_txt_converter.py)\<close>

datatype section_key = HEADER | EDUCATION | PROJECTS | EXPERIENCE | SKILLS

text \<open>\<open>self.section_markers\<close>.\<close>

fun section_markers :: "section_key \<Rightarrow> pystr" where
  "section_markers HEADER = str ''===HEADER===''"
| "section_markers EDUCATION = str ''===EDUCATION===''"
| "section_markers PROJECTS = str ''===PROJECTS===''"
| "section_markers EXPERIENCE = str ''===PROFESSIONAL EXPERIENCE===''"
| "section_markers SKILLS = str ''===TECHNICAL SKILLS===''"

definition all_section_keys :: "section_key list" where
  "all_section_keys = [HEADER, EDUCATION, PROJECTS, EXPERIENCE, SKILLS]"

text \<open>\<open>_map_to_section_key\<close>: \<open>None\<close> when no branch matches.\<close>

definition map_to_section_key :: "tables \<Rightarrow> pystr \<Rightarrow> section_key option" where
  "map_to_section_key U header_text =
     (let header_upper = str_upper U header_text in
      if str_in (str ''EDUCATION'') header_upper then Some EDUCATION
      else if str_in (str ''PROJECTS'') header_upper then Some PROJECTS
      else if str_in (str ''EXPERIENCE'') header_upper then Some EXPERIENCE
      else if str_in (str ''SKILL'') header_upper \<or> str_in (str ''TECHNICAL'') header_upper
        then Some SKILLS
      else None)"

subsection \<open>Encoding: \<open>docx_to_structured_txt\<close>\<close>

text \<open>
  One step of the loop over \<open>doc.paragraphs\<close>; the state is \<open>structured_lines\<close> and
  \<open>current_section\<close>. The marker line is appended with a leading line feed
  (\<open>f"\n{marker}"\<close>); the synthetic HEADER marker is inserted at index 0.
\<close>

definition encode_step :: "tables \<Rightarrow> pystr list \<times> section_key option \<Rightarrow> para \<Rightarrow> pystr list \<times> section_key option" where
  "encode_step U st p =
     (let structured_lines = fst st; current_section = snd st; text = py_strip (ptext p) in
      if text = [] then st
      else if is_section_header U text then
        (case map_to_section_key U text of
           Some section_key \<Rightarrow>
             (structured_lines @ [10 # section_markers section_key, text], Some section_key)
         | None \<Rightarrow> (structured_lines @ [text], current_section))
      else if current_section = None then
        (if \<not> list_ex (\<lambda>k. str_in (section_markers k) (join_nl structured_lines)) all_section_keys
         then ((section_markers HEADER # structured_lines) @ [text], Some HEADER)
         else (structured_lines @ [text], current_section))
      else (structured_lines @ [text], current_section))"

definition docx_to_structured_txt :: "tables \<Rightarrow> para list \<Rightarrow> pystr" where
  "docx_to_structured_txt U doc = join_nl (fst (foldl (encode_step U) ([], None) doc))"

subsection \<open>Decoding: cleaning and parsing the text\<close>

definition formatting_keywords :: "pystr list" where
  "formatting_keywords =
     [str ''**FORMATTING SPECIFICATIONS:**'', str ''**CONTENT REQUIREMENTS:**'',
      str ''**WHAT NEVER CHANGES:**'', str ''**Instructions:**'', str ''**Output Format:**'']"

definition ends_formatting_section :: "pystr \<Rightarrow> bool" where
  "ends_formatting_section line =
     (startswith line (str ''==='') \<or>
      (line \<noteq> [] \<and> \<not> startswith line (str ''-'') \<and> \<not> startswith line (str ''**'')
       \<and> \<not> startswith line (str ''*'') \<and> \<not> startswith line (str ''1.'')
       \<and> \<not> startswith line (str ''2.'') \<and> \<not> startswith line (str ''3.'')
       \<and> \<not> startswith line (str ''4.'') \<and> \<not> startswith line (str ''5.'')))"

text \<open>\<open>_clean_structured_txt\<close>: the state is \<open>cleaned_lines\<close> and \<open>skip_formatting_section\<close>.\<close>

definition clean_step :: "pystr list \<times> bool \<Rightarrow> pystr \<Rightarrow> pystr list \<times> bool" where
  "clean_step st raw =
     (let cleaned_lines = fst st; skip = snd st; line = py_strip raw in
      if list_ex (\<lambda>keyword. str_in keyword line) formatting_keywords then (cleaned_lines, True)
      else if skip then
        (if ends_formatting_section line then (cleaned_lines @ [line], False)
         else (cleaned_lines, True))
      else (cleaned_lines @ [line], False))"

definition clean_structured_txt :: "pystr \<Rightarrow> pystr" where
  "clean_structured_txt structured_txt =
     join_nl (fst (foldl clean_step ([], False) (split_nl structured_txt)))"

text \<open>
  \<open>_parse_ai_structured_txt\<close>. The state is the dictionary \<open>sections\<close>,
  \<open>current_section\<close> and \<open>current_lines\<close>; \<open>_save_and_start_section\<close> stores the
  lines gathered so far only when there are some.
\<close>

record parse_state =
  sections :: "section_key \<Rightarrow> pystr list option"
  current_section :: "section_key option"
  current_lines :: "pystr list"

definition save_and_start_section :: "parse_state \<Rightarrow> section_key \<Rightarrow> parse_state" where
  "save_and_start_section st new_section =
     \<lparr>sections =
        (case current_section st of
           Some cur \<Rightarrow> (if current_lines st \<noteq> [] then (sections st)(cur \<mapsto> current_lines st)
                       else sections st)
         | None \<Rightarrow> sections st),
      current_section = Some new_section,
      current_lines = []\<rparr>"

definition parse_step :: "parse_state \<Rightarrow> pystr \<Rightarrow> parse_state" where
  "parse_step st raw =
     (let line = py_strip raw in
      if line = [] then st
      else if str_in (str ''===HEADER==='') line then save_and_start_section st HEADER
      else if str_in (str ''===EDUCATION==='') line then save_and_start_section st EDUCATION
      else if str_in (str ''===PROJECTS==='') line then save_and_start_section st PROJECTS
      else if str_in (str ''===PROFESSIONAL EXPERIENCE==='') line
              \<or> str_in (str ''===EXPERIENCE==='') line
        then save_and_start_section st EXPERIENCE
      else if str_in (str ''===TECHNICAL SKILLS==='') line \<or> str_in (str ''===SKILLS==='') line
        then save_and_start_section st SKILLS
      else if current_section st \<noteq> None then st\<lparr>current_lines := current_lines st @ [line]\<rparr>
      else st\<lparr>sections := (sections st)(HEADER \<mapsto>
                 (case sections st HEADER of None \<Rightarrow> [] | Some ls \<Rightarrow> ls) @ [line])\<rparr>)"

definition parse_ai_structured_txt :: "pystr \<Rightarrow> section_key \<Rightarrow> pystr list option" where
  "parse_ai_structured_txt structured_txt =
     (let st = foldl parse_step
                 \<lparr>sections = Map.empty, current_section = None, current_lines = []\<rparr>
                 (split_nl structured_txt)
      in case current_section st of
           Some cur \<Rightarrow> (if current_lines st \<noteq> [] then (sections st)(cur \<mapsto> current_lines st)
                       else sections st)
         | None \<Rightarrow> sections st)"

text \<open>\<open>sections.get(key, [])\<close>.\<close>

definition get_lines :: "(section_key \<Rightarrow> pystr list option) \<Rightarrow> section_key \<Rightarrow> pystr list" where
  "get_lines secs k = (case secs k of None \<Rightarrow> [] | Some ls \<Rightarrow> ls)"

subsection \<open>Decoding: building the document\<close>

text \<open>
  \<open>self.format_specs\<close>. Sizes and spacings are in points. The page margins set by
  \<open>_set_document_margins\<close> belong to the document's page section, not to a paragraph,
  and are left out.
\<close>

definition spec_font_name :: string where "spec_font_name = ''Times New Roman''"
definition name_size :: nat where "name_size = 16"
definition contact_size :: nat where "contact_size = 11"
definition section_header_size :: nat where "section_header_size = 13"
definition job_title_size :: nat where "job_title_size = 12"
definition body_size :: nat where "body_size = 11"
definition no_spacing :: nat where "no_spacing = 0"

definition empty_ppr :: ppr where
  "empty_ppr = \<lparr>align = None, space_before = None, space_after = None, indent = None,
     numpr = None\<rparr>"

text \<open>\<open>doc.add_paragraph()\<close>: the paragraph that is appended, a fresh object.\<close>

definition add_paragraph :: "para list \<Rightarrow> para" where
  "add_paragraph doc = \<lparr>pid = length doc, pprops = empty_ppr, runs = []\<rparr>"

definition set_alignment :: "alignment \<Rightarrow> para \<Rightarrow> para" where
  "set_alignment a p = p\<lparr>pprops := (pprops p)\<lparr>align := Some a\<rparr>\<rparr>"

text \<open>\<open>space_before = Pt(no_spacing)\<close> and \<open>space_after = Pt(no_spacing)\<close>.\<close>

definition set_no_spacing :: "para \<Rightarrow> para" where
  "set_no_spacing p =
     p\<lparr>pprops := (pprops p)\<lparr>space_before := Some no_spacing, space_after := Some no_spacing\<rparr>\<rparr>"

text \<open>
  \<open>para.add_run(text)\<close> followed by the assignments of font name, size and weight;
  \<open>u\<close> is \<open>Some True\<close> where the source also sets \<open>run.underline = True\<close>.
\<close>

definition add_run :: "pystr \<Rightarrow> nat \<Rightarrow> bool \<Rightarrow> bool option \<Rightarrow> para \<Rightarrow> para" where
  "add_run text sz b u p =
     p\<lparr>runs := runs p @
        [\<lparr>rtext = text,
          rprops = \<lparr>font_name = Some spec_font_name, font_size = Some sz, bold = Some b,
                    italic = None, underline = u\<rparr>\<rparr>]\<rparr>"

text \<open>The regex \<open>\d{3}[-\s]?\d{3}[-\s]?\d{4}\<close>, matched at the start of a string.\<close>

fun match_digits :: "tables \<Rightarrow> nat \<Rightarrow> pystr \<Rightarrow> pystr option" where
  "match_digits U 0 s = Some s"
| "match_digits U (Suc n) [] = None"
| "match_digits U (Suc n) (c # cs) = (if re_digit U c then match_digits U n cs else None)"

definition opt_sep :: "pystr \<Rightarrow> pystr" where
  "opt_sep s = (case s of [] \<Rightarrow> [] | c # cs \<Rightarrow> (if c = 45 \<or> is_space c then cs else s))"

definition phone_at :: "tables \<Rightarrow> pystr \<Rightarrow> bool" where
  "phone_at U s =
     (case match_digits U 3 s of
        None \<Rightarrow> False
      | Some s1 \<Rightarrow>
          (case match_digits U 3 (opt_sep s1) of
             None \<Rightarrow> False
           | Some s2 \<Rightarrow> match_digits U 4 (opt_sep s2) \<noteq> None))"

text \<open>\<open>re.search\<close>: a match at some position.\<close>

fun phone_search :: "tables \<Rightarrow> pystr \<Rightarrow> bool" where
  "phone_search U [] = False"
| "phone_search U (c # cs) = (phone_at U (c # cs) \<or> phone_search U cs)"

text \<open>\<open>_is_contact_info\<close>.\<close>

definition is_contact_info :: "tables \<Rightarrow> pystr \<Rightarrow> bool" where
  "is_contact_info U line =
     (let line_lower = str_lower U line in
      str_in (str ''@'') line \<or> str_in (str ''linkedin'') line_lower
      \<or> str_in (str ''http'') line_lower \<or> phone_search U line \<or> str_in (str ''|'') line)"

text \<open>\<open>_format_name_correctly\<close>.\<close>

definition name_stoppers :: "pystr list" where
  "name_stoppers = [str ''@'', str ''|'', str ''http'', str ''.com'', str ''832'', str ''713'']"

definition capitalize_word :: "tables \<Rightarrow> pystr \<Rightarrow> pystr" where
  "capitalize_word U w = (case w of [] \<Rightarrow> [] | c # cs \<Rightarrow> str_upper U [c] @ str_lower U cs)"

definition format_name_correctly :: "tables \<Rightarrow> pystr \<Rightarrow> pystr" where
  "format_name_correctly U name_line =
     (let words = split_ws (py_strip name_line);
          name_words = takeWhile (\<lambda>word. \<not> list_ex (\<lambda>ch. str_in ch word) name_stoppers) words
      in if 2 \<le> length name_words
         then capitalize_word U (hd name_words) @ [32] @ capitalize_word U (last name_words)
         else py_strip name_line)"

text \<open>
  \<open>_add_header_section\<close>. The paragraph is appended and centred before the line is
  examined, so a later line that is no contact information leaves an empty centred
  paragraph whose spacing was never set (the \<open>continue\<close> skips those assignments).
\<close>

fun add_header_lines :: "tables \<Rightarrow> nat \<Rightarrow> pystr list \<Rightarrow> para list \<Rightarrow> para list" where
  "add_header_lines U i [] doc = doc"
| "add_header_lines U i (line # rest) doc =
     (if py_strip line = [] then add_header_lines U (Suc i) rest doc
      else
        (let para = set_alignment CENTER (add_paragraph doc) in
         if i = 0 then
           add_header_lines U (Suc i) rest
             (doc @ [set_no_spacing (add_run (format_name_correctly U line) name_size True None para)])
         else if is_contact_info U line then
           add_header_lines U (Suc i) rest
             (doc @ [set_no_spacing (add_run (py_strip line) contact_size False None para)])
         else add_header_lines U (Suc i) rest (doc @ [para])))"

definition add_header_section :: "tables \<Rightarrow> para list \<Rightarrow> pystr list \<Rightarrow> para list" where
  "add_header_section U doc header_lines = add_header_lines U 0 header_lines doc"

text \<open>The blank paragraph and the bold, underlined header that open a section.\<close>

definition add_blank_para :: "para list \<Rightarrow> para list" where
  "add_blank_para doc = doc @ [set_no_spacing (add_paragraph doc)]"

definition add_section_header :: "pystr \<Rightarrow> para list \<Rightarrow> para list" where
  "add_section_header title doc =
     doc @ [set_no_spacing
              (add_run title section_header_size True (Some True)
                 (set_alignment LEFT (add_paragraph doc)))]"

text \<open>\<open>_add_education_section\<close>: no blank paragraph before this header.\<close>

definition add_education_line :: "para list \<Rightarrow> pystr \<Rightarrow> para list" where
  "add_education_line doc line =
     (if py_strip line \<noteq> [] then
        doc @ [set_no_spacing
                 (add_run (py_strip line) job_title_size False None
                    (set_alignment LEFT (add_paragraph doc)))]
      else doc)"

definition add_education_section :: "para list \<Rightarrow> pystr list \<Rightarrow> para list" where
  "add_education_section doc education_lines =
     (if education_lines = [] then doc
      else foldl add_education_line (add_section_header (str ''EDUCATION'') doc) education_lines)"

text \<open>
  The content loop shared, line for line, by \<open>_add_projects_section\<close> and
  \<open>_add_experience_section\<close>: a line with a \<open>|\<close> is an entry line in bold, any other
  line becomes a bullet line.
\<close>

definition bullet_content :: "pystr \<Rightarrow> pystr" where
  "bullet_content line =
     (let content = py_strip line;
          content = (if \<not> startswith content [bullet_glyph] then [bullet_glyph, 32] @ content
                     else content);
          content = (if \<not> endswith content (str ''.'') \<and> \<not> endswith content (str ''?'')
                        \<and> \<not> endswith content (str ''!'')
                     then content @ str ''.'' else content)
      in content)"

definition add_entry_line :: "para list \<Rightarrow> pystr \<Rightarrow> para list" where
  "add_entry_line doc line =
     (if py_strip line = [] then doc
      else
        (let para = set_alignment LEFT (add_paragraph doc) in
         if str_in (str ''|'') line
         then doc @ [set_no_spacing (add_run (py_strip line) job_title_size True None para)]
         else doc @ [set_no_spacing (add_run (bullet_content line) body_size False None para)]))"

definition add_projects_section :: "para list \<Rightarrow> pystr list \<Rightarrow> para list" where
  "add_projects_section doc projects_lines =
     (if projects_lines = [] then doc
      else foldl add_entry_line (add_section_header (str ''PROJECTS'') (add_blank_para doc))
             projects_lines)"

definition add_experience_section :: "para list \<Rightarrow> pystr list \<Rightarrow> para list" where
  "add_experience_section doc experience_lines =
     (if experience_lines = [] then doc
      else foldl add_entry_line
             (add_section_header (str ''PROFESSIONAL EXPERIENCE'') (add_blank_para doc))
             experience_lines)"

text \<open>
  \<open>_add_skills_section\<close>. \<open>replace('**', '').replace('*', '')\<close> removes every
  asterisk (code point 42); \<open>line.split(':', 1)\<close> cuts at the first colon (58).
\<close>

definition skill_skip_keywords :: "pystr list" where
  "skill_skip_keywords =
     [str ''FORMATTING'', str ''CONTENT REQUIREMENTS'', str ''WHAT NEVER CHANGES'',
      str ''Instructions:'', str ''Action-Oriented:'', str ''STAR Flow:'',
      str ''Quantifiable Results:'', str ''Concise & Specific:'', str ''ATS Alignment:'',
      str ''Output Format:'']"

definition remove_stars :: "pystr \<Rightarrow> pystr" where
  "remove_stars s = filter (\<lambda>c. c \<noteq> 42) s"

definition add_skills_line :: "para list \<Rightarrow> pystr \<Rightarrow> para list" where
  "add_skills_line doc line =
     (if py_strip line = [] then doc
      else if list_ex (\<lambda>keyword. str_in keyword line) skill_skip_keywords then doc
      else
        (let para = set_alignment LEFT (add_paragraph doc) in
         if str_in (str '':'') line then
           (let category_part = py_strip (takeWhile (\<lambda>c. c \<noteq> 58) line);
                skills_part = py_strip (drop 1 (dropWhile (\<lambda>c. c \<noteq> 58) line));
                category = py_strip (remove_stars category_part);
                skills = py_strip (remove_stars skills_part);
                para1 = add_run (category @ str '':'') body_size True None para
            in if skills \<noteq> []
               then doc @ [set_no_spacing (add_run (32 # skills) body_size False None para1)]
               else doc @ [set_no_spacing para1])
         else doc @ [set_no_spacing
                       (add_run (py_strip (remove_stars line)) body_size False None para)]))"

definition add_skills_section :: "para list \<Rightarrow> pystr list \<Rightarrow> para list" where
  "add_skills_section doc skills_lines =
     (if skills_lines = [] then doc
      else foldl add_skills_line
             (add_section_header (str ''TECHNICAL SKILLS'') (add_blank_para doc)) skills_lines)"

text \<open>
  The body of the \<open>try\<close> block of \<open>structured_txt_to_docx\<close> up to the save: the
  document that the five sections build from the text. The template
  (\<open>master_docx_path\<close>) is a parameter the source never reads.
\<close>

definition build_docx :: "tables \<Rightarrow> pystr \<Rightarrow> para list" where
  "build_docx U structured_txt =
     (let cleaned_txt = clean_structured_txt structured_txt;
          secs = parse_ai_structured_txt cleaned_txt;
          new_doc = [];
          new_doc = add_header_section U new_doc (get_lines secs HEADER);
          new_doc = add_education_section new_doc (get_lines secs EDUCATION);
          new_doc = add_projects_section new_doc (get_lines secs PROJECTS);
          new_doc = add_experience_section new_doc (get_lines secs EXPERIENCE);
          new_doc = add_skills_section new_doc (get_lines secs SKILLS)
      in new_doc)"

text \<open>
  \<open>structured_txt_to_docx\<close>: the returned flag and the document that is saved, if any.
  \<open>add_run\<close> hands its text to the XML library, which raises on a character it does
  not accept; the exception leaves the \<open>try\<close> block, nothing is saved and the
  \<open>except\<close> branch returns \<open>False\<close>. Every text given to \<open>add_run\<close> is the text of
  a run of the document built above, and no paragraph is removed once added, so a call
  raises exactly when a run of that document has a text that cannot be stored. Failures
  of creating or saving the file itself are outside the model.
\<close>

definition runs_storable :: "tables \<Rightarrow> para list \<Rightarrow> bool" where
  "runs_storable U doc =
     list_all (\<lambda>p. list_all (\<lambda>r. list_all (xml_char U) (rtext r)) (runs p)) doc"

definition structured_txt_to_docx ::
  "tables \<Rightarrow> pystr \<Rightarrow> para list \<Rightarrow> bool \<times> para list option" where
  "structured_txt_to_docx U structured_txt master_docx =
     (let new_doc = build_docx U structured_txt
      in if runs_storable U new_doc then (True, Some new_doc) else (False, None))"

section \<open>Anchors and sections of a template (automated_resume_tailor.py)\<close>

text \<open>\<open>_has_numbering\<close>: the paragraph properties hold a numbering node.\<close>

definition has_numbering :: "para \<Rightarrow> bool" where
  "has_numbering p = (numpr (pprops p) \<noteq> None)"

text \<open>
  \<open>_build_style_anchors\<close>. One step of the loop fills the roles that are still empty,
  in the order of the source; the loop stops once all four are filled.
\<close>

record anchors =
  SectionHeader :: "para option"
  Bullet :: "para option"
  Body :: "para option"
  Contact :: "para option"

definition anchors_step :: "tables \<Rightarrow> anchors \<Rightarrow> para \<Rightarrow> anchors" where
  "anchors_step U a p =
     (let text = py_strip (ptext p);
          a = (if SectionHeader a = None \<and> is_all_caps_header U text
               then a\<lparr>SectionHeader := Some p\<rparr> else a);
          a = (if Contact a = None \<and>
                  (str_in (str ''@'') text \<or> str_in (str ''phone'') (str_lower U text)
                   \<or> str_in (str ''linkedin'') (str_lower U text))
               then a\<lparr>Contact := Some p\<rparr> else a);
          a = (if Bullet a = None \<and>
                  (has_numbering p \<or> startswith text [bullet_glyph] \<or> startswith text (str ''- ''))
               then a\<lparr>Bullet := Some p\<rparr> else a);
          a = (if Body a = None \<and> text \<noteq> [] \<and> \<not> is_all_caps_header U text \<and> \<not> has_numbering p
               then a\<lparr>Body := Some p\<rparr> else a)
      in a)"

definition all_found :: "anchors \<Rightarrow> bool" where
  "all_found a =
     (SectionHeader a \<noteq> None \<and> Bullet a \<noteq> None \<and> Body a \<noteq> None \<and> Contact a \<noteq> None)"

fun anchors_loop :: "tables \<Rightarrow> anchors \<Rightarrow> para list \<Rightarrow> anchors" where
  "anchors_loop U a [] = a"
| "anchors_loop U a (p # ps) =
     (let a' = anchors_step U a p in if all_found a' then a' else anchors_loop U a' ps)"

definition build_style_anchors :: "tables \<Rightarrow> para list \<Rightarrow> anchors" where
  "build_style_anchors U doc =
     anchors_loop U \<lparr>SectionHeader = None, Bullet = None, Body = None, Contact = None\<rparr> doc"

text \<open>
  \<open>_locate_sections\<close>. The state is \<open>sections\<close>, \<open>current_header\<close> and
  \<open>current_body\<close>. At a header the section gathered so far is stored only when it has
  a header, and \<open>current_body\<close> is reset either way. Both branches of the source's
  inner \<open>if current_header\<close> for a non-header paragraph append it to \<open>current_body\<close>.
\<close>

type_synonym located = "(para option \<times> para list) list"

definition locate_step ::
  "tables \<Rightarrow> located \<times> para option \<times> para list \<Rightarrow> para \<Rightarrow> located \<times> para option \<times> para list" where
  "locate_step U st p =
     (case st of (secs, current_header, current_body) \<Rightarrow>
        if is_all_caps_header U (py_strip (ptext p)) then
          ((if current_header \<noteq> None then secs @ [(current_header, current_body)] else secs),
           Some p, [])
        else (secs, current_header, current_body @ [p]))"

definition locate_sections :: "tables \<Rightarrow> para list \<Rightarrow> located" where
  "locate_sections U doc =
     (case foldl (locate_step U) ([], None, []) doc of (secs, current_header, current_body) \<Rightarrow>
        if current_header \<noteq> None then secs @ [(current_header, current_body)]
        else if current_body \<noteq> [] then secs @ [(None, current_body)]
        else secs)"

section \<open>Mutating a document\<close>

text \<open>
  The host document is the list of its paragraphs; a paragraph object is found in it by
  its \<open>pid\<close>. A new object gets a \<open>pid\<close> that no paragraph of the document has.
\<close>

definition fresh_pid :: "para list \<Rightarrow> nat" where
  "fresh_pid doc = Suc (foldr max (map pid doc) 0)"

fun insert_after :: "nat \<Rightarrow> para \<Rightarrow> para list \<Rightarrow> para list" where
  "insert_after r new [] = []"
| "insert_after r new (q # qs) =
     (if pid q = r then q # new # qs else q # insert_after r new qs)"

definition update_para :: "para \<Rightarrow> para list \<Rightarrow> para list" where
  "update_para p doc = map (\<lambda>q. if pid q = pid p then p else q) doc"

text \<open>
  \<open>_replace_paragraph_text\<close> (automated_resume_tailor.py): the first run takes the new
  text, the other runs are emptied, and a paragraph without runs gets one run
  (\<open>paragraph.add_run\<close>, no property set). The verification that follows only logs.
\<close>

definition plain_run :: "pystr \<Rightarrow> run" where
  "plain_run text =
     \<lparr>rtext = text,
      rprops = \<lparr>font_name = None, font_size = None, bold = None, italic = None,
                underline = None\<rparr>\<rparr>"

definition replace_paragraph_text :: "para \<Rightarrow> pystr \<Rightarrow> para" where
  "replace_paragraph_text p new_text =
     (case runs p of
        [] \<Rightarrow> p\<lparr>runs := [plain_run new_text]\<rparr>
      | r # rs \<Rightarrow> p\<lparr>runs := r\<lparr>rtext := new_text\<rparr> # map (\<lambda>x. x\<lparr>rtext := []\<rparr>) rs\<rparr>)"






section \<open>The section content rewriter (tailor_resume_strict.py)\<close>

text \<open>
  \<open>_sanitize\<close>: \<open>strip\<close>, then the regex \<open>^[\u2022\-\*\t\s]+\<close> removed from the
  front, then every run matched by \<open>\s+\<close> replaced by one space, then \<open>strip\<close> again.
\<close>

definition is_lead :: "nat \<Rightarrow> bool" where
  "is_lead c = (c = bullet_glyph \<or> c = 45 \<or> c = 42 \<or> c = 9 \<or> is_space c)"

fun collapse_ws :: "bool \<Rightarrow> pystr \<Rightarrow> pystr" where
  "collapse_ws in_run [] = []"
| "collapse_ws in_run (c # cs) =
     (if is_space c then (if in_run then collapse_ws True cs else 32 # collapse_ws True cs)
      else c # collapse_ws False cs)"

definition sanitize :: "pystr \<Rightarrow> pystr" where
  "sanitize s = py_strip (collapse_ws False (dropWhile is_lead (py_strip s)))"

definition clean_lines :: "pystr list \<Rightarrow> pystr list" where
  "clean_lines lines = filter (\<lambda>t. t \<noteq> []) (map sanitize lines)"

text \<open>
  The title heuristic of the mixed mode: the line contains \<open>" | "\<close> and the regex
  \<open>^\d+[\.\)]\s*\<close> finds no match, that is, the line does not start with digits
  followed by a full stop (46) or a closing parenthesis (41).
\<close>

definition numbered_prefix :: "tables \<Rightarrow> pystr \<Rightarrow> bool" where
  "numbered_prefix U line =
     (takeWhile (re_digit U) line \<noteq> [] \<and>
      (case dropWhile (re_digit U) line of [] \<Rightarrow> False | c # cs \<Rightarrow> c = 46 \<or> c = 41))"

definition looks_like_title :: "tables \<Rightarrow> pystr \<Rightarrow> bool" where
  "looks_like_title U line = (str_in (str '' | '') line \<and> \<not> numbered_prefix U line)"

text \<open>
  Modelled from the spec: \<open>delete_paragraph\<close>, \<open>clone_paragraph_after\<close> and
  \<open>set_paragraph_text_preserve_runs\<close>, helpers of tailor_resume_strict.py whose bodies
  are not among the sources (its \<open>has_numbering\<close> is taken to be \<open>_has_numbering\<close>
  above). Deleting removes the paragraph from the document. Cloning
  copies the full structural node of the one paragraph the call passes and inserts the
  copy right after it. Setting the text overwrites the text of the first run and clears
  the text of the others, never deleting or adding a run: a text-only change leaves the
  signature of any paragraph as it is, and a paragraph without runs, which has no first
  run to overwrite, stays as it is.
\<close>

definition delete_paragraph :: "para \<Rightarrow> para list \<Rightarrow> para list" where
  "delete_paragraph p doc = filter (\<lambda>q. pid q \<noteq> pid p) doc"

definition clone_paragraph_after :: "para \<Rightarrow> para list \<Rightarrow> para \<times> para list" where
  "clone_paragraph_after p doc =
     (let new_p = p\<lparr>pid := fresh_pid doc\<rparr> in (new_p, insert_after (pid p) new_p doc))"

definition set_paragraph_text_preserve_runs :: "para \<Rightarrow> pystr \<Rightarrow> para" where
  "set_paragraph_text_preserve_runs p text =
     (case runs p of
        [] \<Rightarrow> p
      | r # rs \<Rightarrow> p\<lparr>runs := r\<lparr>rtext := text\<rparr> # map (\<lambda>x. x\<lparr>rtext := []\<rparr>) rs\<rparr>)"

text \<open>
  \<open>rewrite_section_from_lines\<close>. \<open>x or y\<close> on anchors picks the first that is not
  \<open>None\<close>.
\<close>

datatype rewrite_error = FormattingDrift

definition or_else :: "para option \<Rightarrow> para \<Rightarrow> para" where
  "or_else a d = (case a of Some p \<Rightarrow> p | None \<Rightarrow> d)"

definition had_bullets :: "para list \<Rightarrow> bool" where
  "had_bullets old_body =
     list_ex (\<lambda>p. has_numbering p \<or> startswith (py_strip (ptext p)) [bullet_glyph]
                 \<or> startswith (py_strip (ptext p)) (str ''- '')) old_body"

definition default_anchor :: "para \<Rightarrow> para list \<Rightarrow> para option \<Rightarrow> para option \<Rightarrow> para" where
  "default_anchor header old_body bullet_anchor body_anchor =
     (case (had_bullets old_body, bullet_anchor) of
        (True, Some b) \<Rightarrow> b
      | _ \<Rightarrow> or_else body_anchor (or_else bullet_anchor header))"

text \<open>
  The loop of the uniform mode. Each round clones \<open>last\<close> (the source passes
  \<open>last if i == 0 else last\<close>), sets the text of the clone and makes it the new
  \<open>last\<close>; the result is \<open>new_pars\<close> and the document.
\<close>

fun clone_uniform :: "para \<Rightarrow> pystr list \<Rightarrow> para list \<Rightarrow> para list \<times> para list" where
  "clone_uniform last_p [] doc = ([], doc)"
| "clone_uniform last_p (line # rest) doc =
     (let (new_p0, doc1) = clone_paragraph_after last_p doc;
          new_p = set_paragraph_text_preserve_runs new_p0 line;
          (new_pars, doc2) = clone_uniform new_p rest (update_para new_p doc1)
      in (new_p # new_pars, doc2))"

text \<open>
  The loop of the mixed mode. It computes \<open>looks_like_title\<close> and \<open>anchor\<close> for the
  line and then makes the same two calls as the uniform loop: \<open>anchor\<close> is not passed
  to either.
\<close>

fun clone_mixed ::
  "tables \<Rightarrow> para \<Rightarrow> pystr list \<Rightarrow> para option \<Rightarrow> para option \<Rightarrow> para \<Rightarrow> para list
     \<Rightarrow> para list \<times> para list" where
  "clone_mixed U last_p [] bullet_anchor body_anchor dflt doc = ([], doc)"
| "clone_mixed U last_p (line # rest) bullet_anchor body_anchor dflt doc =
     (let is_title = looks_like_title U line;
          anchor = (if is_title then or_else body_anchor dflt else or_else bullet_anchor dflt);
          (new_p0, doc1) = clone_paragraph_after last_p doc;
          new_p = set_paragraph_text_preserve_runs new_p0 line;
          (new_pars, doc2) =
             clone_mixed U new_p rest bullet_anchor body_anchor dflt (update_para new_p doc1)
      in (new_p # new_pars, doc2))"

text \<open>The two verification loops: \<open>True\<close> when some new paragraph makes them raise.\<close>

definition drift_uniform :: "ppr \<times> rpr list \<Rightarrow> para list \<Rightarrow> bool" where
  "drift_uniform sig_default new_pars =
     list_ex (\<lambda>np. paragraph_xml_signature np \<noteq> sig_default) new_pars"

definition drift_mixed :: "tables \<Rightarrow> ppr \<times> rpr list \<Rightarrow> ppr \<times> rpr list \<Rightarrow> para list \<Rightarrow> bool" where
  "drift_mixed U sig_bullet sig_body new_pars =
     list_ex (\<lambda>np.
        (let sig_np = paragraph_xml_signature np;
             txt = ptext np;
             is_title = looks_like_title U txt;
             target_sig = (if is_title then sig_body else sig_bullet)
         in sig_np \<noteq> target_sig)) new_pars"

definition rewrite_section_from_lines ::
  "tables \<Rightarrow> para \<Rightarrow> para list \<Rightarrow> pystr list \<Rightarrow> para option \<Rightarrow> para option \<Rightarrow> bool \<Rightarrow> bool
     \<Rightarrow> para list \<Rightarrow> rewrite_error + para list" where
  "rewrite_section_from_lines U header old_body lines bullet_anchor body_anchor strict_verify
       mixed_mode doc =
     (let cl = clean_lines lines;
          dflt = default_anchor header old_body bullet_anchor body_anchor;
          sig_default = paragraph_xml_signature dflt;
          doc0 = foldl (\<lambda>d p. delete_paragraph p d) doc old_body
      in if \<not> mixed_mode then
           (let (new_pars, doc1) = clone_uniform header cl doc0
            in if strict_verify \<and> drift_uniform sig_default new_pars then Inl FormattingDrift
               else Inr doc1)
         else
           (let sig_bullet = paragraph_xml_signature (or_else bullet_anchor dflt);
                sig_body = paragraph_xml_signature (or_else body_anchor dflt);
                (new_pars, doc1) = clone_mixed U header cl bullet_anchor body_anchor dflt doc0
            in if strict_verify \<and> drift_mixed U sig_bullet sig_body new_pars
               then Inl FormattingDrift
               else Inr doc1))"



section \<open>Notions used to state the properties\<close>

text \<open>A paragraph with the given identity and text, in one run with no property set.\<close>

definition text_para :: "nat \<Rightarrow> pystr \<Rightarrow> para" where
  "text_para i t = \<lparr>pid = i, pprops = empty_ppr, runs = [plain_run t]\<rparr>"

text \<open>The text the content loop of the projects and experience sections gives a line.\<close>

definition entry_text :: "pystr \<Rightarrow> pystr" where
  "entry_text line = (if str_in (str ''|'') line then py_strip line else bullet_content line)"

definition ends_sentence :: "pystr \<Rightarrow> bool" where
  "ends_sentence s = (endswith s (str ''.'') \<or> endswith s (str ''?'') \<or> endswith s (str ''!''))"

text \<open>
  The paragraphs the cloning loop inserts, written without the document: each is the one
  before it (the header first) with the line as its text, under a new identity; \<open>n\<close>
  is the first new identity.
\<close>

fun new_paragraphs :: "para \<Rightarrow> pystr list \<Rightarrow> nat \<Rightarrow> para list" where
  "new_paragraphs last_p [] n = []"
| "new_paragraphs last_p (line # rest) n =
     (let new_p = (set_paragraph_text_preserve_runs last_p line)\<lparr>pid := n\<rparr>
      in new_p # new_paragraphs new_p rest (Suc n))"






text \<open>
  A text in which every whitespace character is a space (32) that is not followed by
  another whitespace character.
\<close>

fun single_spaced :: "pystr \<Rightarrow> bool" where
  "single_spaced [] = True"
| "single_spaced [c] = (\<not> is_space c \<or> c = 32)"
| "single_spaced (c # d # cs) =
     ((\<not> is_space c \<or> (c = 32 \<and> \<not> is_space d)) \<and> single_spaced (d # cs))"

text \<open>\<open>' '.join(words)\<close>.\<close>

fun join_sp :: "pystr list \<Rightarrow> pystr" where
  "join_sp [] = []"
| "join_sp [w] = w"
| "join_sp (w # v # ws) = w @ [32] @ join_sp (v # ws)"



text \<open>A paragraph with one run in Arial of the given size and weight, and the given numbering.\<close>

definition fmt_para :: "nat \<Rightarrow> pystr \<Rightarrow> nat \<Rightarrow> bool \<Rightarrow> (nat \<times> nat) option \<Rightarrow> para" where
  "fmt_para i t sz b nm =
     \<lparr>pid = i,
      pprops = \<lparr>align = None, space_before = None, space_after = None, indent = None,
                numpr = nm\<rparr>,
      runs = [\<lparr>rtext = t,
               rprops = \<lparr>font_name = Some ''Arial'', font_size = Some sz, bold = Some b,
                         italic = None, underline = None\<rparr>\<rparr>]\<rparr>"

text \<open>
  The paragraphs the decoder can build, with empty texts: the name, a contact line, a
  header line that was skipped, the blank paragraph before a section, a section header,
  an education entry, an entry line, a bullet line (also a skills line without colon),
  and a skills line with its category, with and without skills after it.
\<close>

definition spec_shapes :: "para list" where
  "spec_shapes =
     [set_no_spacing (add_run [] name_size True None (set_alignment CENTER (add_paragraph []))),
      set_no_spacing (add_run [] contact_size False None (set_alignment CENTER (add_paragraph []))),
      set_alignment CENTER (add_paragraph []),
      set_no_spacing (add_paragraph []),
      set_no_spacing (add_run [] section_header_size True (Some True)
        (set_alignment LEFT (add_paragraph []))),
      set_no_spacing (add_run [] job_title_size False None (set_alignment LEFT (add_paragraph []))),
      set_no_spacing (add_run [] job_title_size True None (set_alignment LEFT (add_paragraph []))),
      set_no_spacing (add_run [] body_size False None (set_alignment LEFT (add_paragraph []))),
      set_no_spacing (add_run [] body_size False None
        (add_run [] body_size True None (set_alignment LEFT (add_paragraph [])))),
      set_no_spacing (add_run [] body_size True None (set_alignment LEFT (add_paragraph [])))]"

definition spec_signatures :: "(ppr \<times> rpr list) list" where
  "spec_signatures = map paragraph_xml_signature spec_shapes"

definition header_signature :: "ppr \<times> rpr list" where
  "header_signature =
     paragraph_xml_signature
       (set_no_spacing (add_run [] section_header_size True (Some True)
          (set_alignment LEFT (add_paragraph []))))"

definition spec_formatted :: "para \<Rightarrow> bool" where
  "spec_formatted p = (paragraph_xml_signature p \<in> set spec_signatures)"

text \<open>The header paragraph of the projects section: the header formatting and the text PROJECTS.\<close>

definition projects_header :: "para \<Rightarrow> bool" where
  "projects_header p =
     (paragraph_xml_signature p = header_signature \<and> ptext p = str ''PROJECTS'')"

section \<open>Evaluation rules\<close>

lemmas text_defs = str_def bullet_glyph_def is_space_def ascii_tables_def ascii_digit_def
  xml_char_ok_def is_upper_cp_def is_lower_cp_def upper_cp_def lower_cp_def
  py_strip_def str_in_def startswith_def endswith_def sublist_code(3)
  suffix_to_prefix split_ws_def

lemmas para_defs = ptext_def paragraph_xml_signature_def empty_ppr_def add_paragraph_def
  set_alignment_def set_no_spacing_def add_run_def plain_run_def text_para_def

section \<open>Texts of the paragraphs the decoder builds\<close>

lemma ptext_built [simp]:
  "ptext (set_no_spacing (add_run t sz b u (set_alignment a (add_paragraph doc)))) = t"
  by (simp add: para_defs)

lemma ptext_blank [simp]: "ptext (set_no_spacing (add_paragraph doc)) = []"
  by (simp add: para_defs)

lemma add_entry_line_texts:
  "map ptext (add_entry_line doc line) =
     map ptext doc @ (if py_strip line = [] then [] else [entry_text line])"
  by (simp add: add_entry_line_def entry_text_def Let_def)

lemma foldl_add_entry_line_texts:
  "map ptext (foldl add_entry_line doc lines) =
     map ptext doc @ map entry_text (filter (\<lambda>l. py_strip l \<noteq> []) lines)"
  by (induction lines arbitrary: doc) (simp_all add: add_entry_line_texts)

lemma suffix_single_append:
  "s \<noteq> [] \<Longrightarrow> suffix [c] (p @ s) = suffix [c] s"
  by (cases s rule: rev_cases) (simp_all add: suffix_def)

lemma ends_sentence_append: "s \<noteq> [] \<Longrightarrow> ends_sentence (p @ s) = ends_sentence s"
  by (simp add: ends_sentence_def endswith_def str_def suffix_single_append)

lemma ends_sentence_stop: "ends_sentence (s @ str ''.'')"
  by (simp add: ends_sentence_def endswith_def str_def)

lemma bullet_content_eq:
  "bullet_content line =
     (let content = (if startswith (py_strip line) [bullet_glyph] then py_strip line
                     else [bullet_glyph, 32] @ py_strip line)
      in if ends_sentence content then content else content @ str ''.'')"
  by (simp add: bullet_content_def ends_sentence_def Let_def)

section \<open>C10: the text of a bullet line\<close>

lemma add_projects_section_texts:
  "map ptext (add_projects_section doc lines) =
     (if lines = [] then map ptext doc
      else map ptext doc @ [[], str ''PROJECTS'']
             @ map entry_text (filter (\<lambda>l. py_strip l \<noteq> []) lines))"
  by (simp add: add_projects_section_def foldl_add_entry_line_texts add_section_header_def
      add_blank_para_def)

lemma add_experience_section_texts:
  "map ptext (add_experience_section doc lines) =
     (if lines = [] then map ptext doc
      else map ptext doc @ [[], str ''PROFESSIONAL EXPERIENCE'']
             @ map entry_text (filter (\<lambda>l. py_strip l \<noteq> []) lines))"
  by (simp add: add_experience_section_def foldl_add_entry_line_texts add_section_header_def
      add_blank_para_def)


lemma bullet_content_shape:
  assumes "py_strip line \<noteq> []"
  shows "bullet_content line =
           (if startswith (py_strip line) [bullet_glyph] then [] else [bullet_glyph, 32])
           @ py_strip line @ (if ends_sentence (py_strip line) then [] else str ''.'')"
proof -
  have "ends_sentence ([bullet_glyph, 32] @ py_strip line) = ends_sentence (py_strip line)"
    using assms by (rule ends_sentence_append)
  then show ?thesis by (simp add: bullet_content_eq Let_def)
qed

lemma bullet_content_starts:
  assumes "py_strip line \<noteq> []"
  shows "startswith (bullet_content line) [bullet_glyph]"
  by (subst bullet_content_shape [OF assms]) (auto simp add: startswith_def prefix_def)

lemma bullet_content_ends:
  assumes "py_strip line \<noteq> []"
  shows "ends_sentence (bullet_content line)"
proof (cases "ends_sentence (py_strip line)")
  case True
  then show ?thesis
    using assms ends_sentence_append [of "py_strip line" "[bullet_glyph, 32]"]
      ends_sentence_append [of "py_strip line" "[]"]
    by (subst bullet_content_shape [OF assms]) (simp del: append_Cons)
next
  case False
  have "ends_sentence ((if startswith (py_strip line) [bullet_glyph] then []
           else [bullet_glyph, 32]) @ py_strip line @ str ''.'')"
    using ends_sentence_stop [of "(if startswith (py_strip line) [bullet_glyph] then []
           else [bullet_glyph, 32]) @ py_strip line"] by simp
  with False show ?thesis by (subst bullet_content_shape [OF assms]) simp
qed

text \<open>
  C10 (as amended). For a non-blank content line of the PROJECTS or EXPERIENCE section
  that has no \<open>|\<close>, the decoder emits a paragraph whose text is the trimmed line,
  with a bullet glyph and a space put in front when the trimmed line does not start with
  the glyph, and with a full stop appended when the result does not end with a full stop,
  a question mark or an exclamation mark. The text therefore starts with the glyph and
  ends with one of the three marks, and a line that already has both is emitted
  unchanged. The texts of a section are, in order, an empty paragraph, the header, and
  one text per non-blank line.
\<close>

theorem C10_bullet_line_text:
  assumes "\<not> str_in (str ''|'') line" and "py_strip line \<noteq> []"
  shows "map ptext (add_projects_section doc (ls @ line # rs)) =
           map ptext doc @ [[], str ''PROJECTS'']
             @ map entry_text (filter (\<lambda>l. py_strip l \<noteq> []) ls)
             @ bullet_content line # map entry_text (filter (\<lambda>l. py_strip l \<noteq> []) rs)
       \<and> map ptext (add_experience_section doc (ls @ line # rs)) =
           map ptext doc @ [[], str ''PROFESSIONAL EXPERIENCE'']
             @ map entry_text (filter (\<lambda>l. py_strip l \<noteq> []) ls)
             @ bullet_content line # map entry_text (filter (\<lambda>l. py_strip l \<noteq> []) rs)
       \<and> bullet_content line =
           (if startswith (py_strip line) [bullet_glyph] then [] else [bullet_glyph, 32])
           @ py_strip line @ (if ends_sentence (py_strip line) then [] else str ''.'')
       \<and> startswith (bullet_content line) [bullet_glyph]
       \<and> ends_sentence (bullet_content line)
       \<and> (startswith (py_strip line) [bullet_glyph] \<and> ends_sentence (py_strip line)
            \<longrightarrow> bullet_content line = py_strip line)"
proof -
  have et: "entry_text line = bullet_content line"
    using assms(1) by (simp add: entry_text_def)
  have p: "map ptext (add_projects_section doc (ls @ line # rs)) =
           map ptext doc @ [[], str ''PROJECTS'']
             @ map entry_text (filter (\<lambda>l. py_strip l \<noteq> []) ls)
             @ bullet_content line # map entry_text (filter (\<lambda>l. py_strip l \<noteq> []) rs)"
    using assms(2) by (simp add: add_projects_section_texts et)
  have e: "map ptext (add_experience_section doc (ls @ line # rs)) =
           map ptext doc @ [[], str ''PROFESSIONAL EXPERIENCE'']
             @ map entry_text (filter (\<lambda>l. py_strip l \<noteq> []) ls)
             @ bullet_content line # map entry_text (filter (\<lambda>l. py_strip l \<noteq> []) rs)"
    using assms(2) by (simp add: add_experience_section_texts et)
  have v: "startswith (py_strip line) [bullet_glyph] \<and> ends_sentence (py_strip line)
           \<longrightarrow> bullet_content line = py_strip line"
    by (subst bullet_content_shape [OF assms(2)]) simp
  from p e bullet_content_shape [OF assms(2)] bullet_content_starts [OF assms(2)]
    bullet_content_ends [OF assms(2)] v
  show ?thesis by blast
qed

theorem C10_bullet_line_text_witness:
  "map ptext (add_projects_section [] [str ''Acme | 2020'', str ''built it'']) =
     [[], str ''PROJECTS'', str ''Acme | 2020'', bullet_glyph # str '' built it.'']
   \<and> map ptext (add_experience_section [] [str ''Acme | 2020'', str ''built it'']) =
     [[], str ''PROFESSIONAL EXPERIENCE'', str ''Acme | 2020'', bullet_glyph # str '' built it.'']
   \<and> bullet_content (str ''built it'') = bullet_glyph # str '' built it.''"
proof -
  have a: "\<not> str_in (str ''|'') (str ''built it'')" by (simp add: text_defs)
  have b: "py_strip (str ''built it'') \<noteq> []" by (simp add: text_defs)
  have e: "entry_text (str ''Acme | 2020'') = str ''Acme | 2020''"
    by (simp add: entry_text_def text_defs)
  have s: "py_strip (str ''Acme | 2020'') \<noteq> []" by (simp add: text_defs)
  note w = C10_bullet_line_text [OF a b, of "[]" "[str ''Acme | 2020'']" "[]"]
  have c: "bullet_content (str ''built it'') = bullet_glyph # str '' built it.''"
    using w by (simp add: ends_sentence_def text_defs)
  show ?thesis
    using w c e s by simp
qed

text \<open>
  C10 as stated fails twice: a line that starts with the glyph and ends with a full stop
  is reproduced verbatim, and a line that starts with the glyph but no space yields a
  text that does not start with glyph and space.
\<close>

theorem C10_counterexample:
  "\<not> str_in (str ''|'') (bullet_glyph # str '' Done.'')
   \<and> map ptext (add_projects_section [] [bullet_glyph # str '' Done.'']) =
       [[], str ''PROJECTS'', bullet_glyph # str '' Done.'']
   \<and> \<not> str_in (str ''|'') (bullet_glyph # str ''x'')
   \<and> map ptext (add_experience_section [] [bullet_glyph # str ''x'']) =
       [[], str ''PROFESSIONAL EXPERIENCE'', bullet_glyph # str ''x.'']
   \<and> \<not> startswith (bullet_glyph # str ''x.'') [bullet_glyph, 32]"
  by (simp add: add_projects_section_texts add_experience_section_texts entry_text_def
      bullet_content_def Let_def text_defs)

section \<open>Facts about trimming\<close>

lemma py_strip_Nil [simp]: "py_strip [] = []"
  by (simp add: py_strip_def)

lemma py_strip_hd: "py_strip s \<noteq> [] \<Longrightarrow> \<not> is_space (hd (py_strip s))"
proof -
  assume ne: "py_strip s \<noteq> []"
  let ?a = "dropWhile is_space s"
  have pre: "prefix (py_strip s) ?a"
    unfolding py_strip_def by (metis suffix_dropWhile suffix_to_prefix rev_rev_ident)
  then obtain zs where a: "?a = py_strip s @ zs" by (auto simp: prefix_def)
  with ne have "?a \<noteq> []" by auto
  then have "\<not> is_space (hd ?a)" by (rule hd_dropWhile)
  moreover have "hd ?a = hd (py_strip s)" using a ne by (metis hd_append2)
  ultimately show ?thesis by simp
qed

lemma py_strip_last: "py_strip s \<noteq> [] \<Longrightarrow> \<not> is_space (last (py_strip s))"
proof -
  assume ne: "py_strip s \<noteq> []"
  let ?b = "dropWhile is_space (rev (dropWhile is_space s))"
  have "?b \<noteq> []" using ne by (simp add: py_strip_def)
  then have "\<not> is_space (hd ?b)" by (rule hd_dropWhile)
  moreover have "last (py_strip s) = hd ?b"
    unfolding py_strip_def using \<open>?b \<noteq> []\<close> by (simp add: last_rev)
  ultimately show ?thesis by simp
qed

lemma py_strip_fixed:
  assumes "s = [] \<or> (\<not> is_space (hd s) \<and> \<not> is_space (last s))"
  shows "py_strip s = s"
proof (cases "s = []")
  case True
  then show ?thesis by simp
next
  case False
  with assms have h: "\<not> is_space (hd s)" and l: "\<not> is_space (last s)" by auto
  have 1: "dropWhile is_space s = s" using h False by (simp add: dropWhile_eq_self_iff)
  have 2: "dropWhile is_space (rev s) = rev s"
    using l False by (simp add: dropWhile_eq_self_iff hd_rev)
  show ?thesis by (simp add: py_strip_def 1 2)
qed

lemma py_strip_idem [simp]: "py_strip (py_strip s) = py_strip s"
  by (rule py_strip_fixed) (use py_strip_hd py_strip_last in blast)

lemma py_strip_sublist: "sublist (py_strip s) s"
  unfolding py_strip_def
  by (meson sublist_dropWhile sublist_order.dual_order.trans sublist_rev_right)

section \<open>C7: which paragraphs are headers\<close>

text \<open>
  C7 (as amended). The section locator starts a new section at a paragraph exactly when
  its trimmed text is non-empty, has at most 48 characters and is upper-case in the sense
  of \<open>str.isupper\<close>. The encoder follows another rule: it takes the header branch for
  every paragraph with non-blank text whose trimmed text, upper-cased, contains one of
  the eight section keywords, whatever the case or the length of the text.
\<close>

theorem C7_header_rules:
  "locate_step U (secs, h, b) p =
     (if py_strip (ptext p) \<noteq> [] \<and> length (py_strip (ptext p)) \<le> 48
         \<and> str_isupper U (py_strip (ptext p))
      then ((if h \<noteq> None then secs @ [(h, b)] else secs), Some p, [])
      else (secs, h, b @ [p]))
   \<and> (py_strip (ptext p) \<noteq> []
        \<and> list_ex (\<lambda>k. str_in k (py_strip (str_upper U (py_strip (ptext p))))) section_keywords
      \<longrightarrow> encode_step U (ls, cur) p =
           (case map_to_section_key U (py_strip (ptext p)) of
              Some k \<Rightarrow> (ls @ [10 # section_markers k, py_strip (ptext p)], Some k)
            | None \<Rightarrow> (ls @ [py_strip (ptext p)], cur)))"
  by (auto simp add: locate_step_def encode_step_def is_all_caps_header_def
      is_section_header_def Let_def)

theorem C7_header_rules_witness:
  "locate_step ascii_tables ([], None, []) (text_para 0 (str ''EDUCATION'')) =
     ([], Some (text_para 0 (str ''EDUCATION'')), [])
   \<and> encode_step ascii_tables ([], None) (text_para 0 (str ''Education'')) =
     ([10 # str ''===EDUCATION==='', str ''Education''], Some EDUCATION)"
  using C7_header_rules [of ascii_tables "[]" None "[]" "text_para 0 (str ''EDUCATION'')"]
    C7_header_rules [of ascii_tables _ _ _ "text_para 0 (str ''Education'')" "[]" None]
  by (simp add: section_keywords_def map_to_section_key_def text_defs para_defs)

text \<open>
  C7 as stated fails for the encoder: \<open>Education\<close> is not upper-case and is encoded
  as a header, with its marker.
\<close>

theorem C7_counterexample:
  "\<not> str_isupper ascii_tables (py_strip (str ''Education''))
   \<and> docx_to_structured_txt ascii_tables [text_para 0 (str ''Education'')] =
       10 # str ''===EDUCATION==='' @ 10 # str ''Education''"
  by (simp add: docx_to_structured_txt_def encode_step_def is_section_header_def
      section_keywords_def map_to_section_key_def Let_def text_defs para_defs)

section \<open>C4: paragraphs before the first header\<close>

lemma locate_no_header:
  "\<not> list_ex (\<lambda>p. is_all_caps_header U (py_strip (ptext p))) lead \<Longrightarrow>
     foldl (locate_step U) (secs, None, b) lead = (secs, None, b @ lead)"
  by (induction lead arbitrary: b) (simp_all add: locate_step_def)

lemma locate_sections_drops_lead:
  assumes "\<not> list_ex (\<lambda>p. is_all_caps_header U (py_strip (ptext p))) lead"
    and "is_all_caps_header U (py_strip (ptext h))"
  shows "locate_sections U (lead @ h # rest) = locate_sections U (h # rest)"
  using locate_no_header [OF assms(1), of "[]" "[]"] assms(2)
  by (simp add: locate_sections_def locate_step_def)

text \<open>
  C4. At a header the locator stores the section gathered so far only when that section
  has a header, and then resets the body: paragraphs before the first header are
  dropped as soon as a header follows them. The claim asks for them as a leading
  headerless section; the locator returns one only for a document without any header.
\<close>

theorem C4_leading_paragraphs_dropped:
  "locate_sections ascii_tables
     [text_para 0 (str ''Jane Doe''), text_para 1 (str ''EDUCATION''),
      text_para 2 (str ''Houston'')] =
     [(Some (text_para 1 (str ''EDUCATION'')), [text_para 2 (str ''Houston'')])]"
  by (simp add: locate_sections_def locate_step_def is_all_caps_header_def text_defs para_defs)

section \<open>C8: the Body anchor\<close>

text \<open>
  C8. The Bullet test accepts a paragraph with numbering or with a text that starts with
  the bullet glyph or with dash and space; the Body test excludes only numbering. A
  paragraph without numbering whose text starts with the glyph is bound as Bullet and as
  Body.
\<close>

theorem C8_glyph_bullet_bound_as_body:
  "Body (build_style_anchors ascii_tables [text_para 0 (bullet_glyph # str '' Led a team of five'')]) =
     Some (text_para 0 (bullet_glyph # str '' Led a team of five''))
   \<and> Bullet (build_style_anchors ascii_tables [text_para 0 (bullet_glyph # str '' Led a team of five'')]) =
     Some (text_para 0 (bullet_glyph # str '' Led a team of five''))
   \<and> startswith (ptext (text_para 0 (bullet_glyph # str '' Led a team of five''))) [bullet_glyph]"
  by (simp add: Let_def build_style_anchors_def anchors_step_def all_found_def
      has_numbering_def is_all_caps_header_def text_defs para_defs)

section \<open>Facts about the mutation of a document\<close>

lemma pid_le_maxpid: "q \<in> set doc \<Longrightarrow> pid q \<le> foldr max (map pid doc) 0"
  by (induction doc) auto

lemma fresh_pid_gt: "q \<in> set doc \<Longrightarrow> pid q < fresh_pid doc"
  using pid_le_maxpid [of q doc] by (simp add: fresh_pid_def)

lemma fresh_pid_notin: "fresh_pid doc \<notin> pid ` set doc"
  using fresh_pid_gt by fastforce


lemma foldr_max_acc: "foldr max xs (a::nat) = max a (foldr max xs 0)"
  by (induction xs) auto

lemma fresh_pid_insert:
  assumes "pid np = fresh_pid (pre @ l # post)"
  shows "fresh_pid (pre @ l # np # post) = Suc (pid np)"
proof -
  have "foldr max (map pid (pre @ l # np # post)) 0 =
          max (pid np) (foldr max (map pid (pre @ l # post)) 0)"
    by (simp add: foldr_max_acc [of _ "max _ _"] max.left_commute)
  then show ?thesis using assms by (simp add: fresh_pid_def)
qed

lemma insert_after_found:
  "r \<notin> pid ` set pre \<Longrightarrow> pid l = r \<Longrightarrow>
     insert_after r new (pre @ l # post) = pre @ l # new # post"
  by (induction pre) auto

lemma update_para_absent: "pid p \<notin> pid ` set doc \<Longrightarrow> update_para p doc = doc"
  by (induction doc) (auto simp: update_para_def)

lemma update_para_append: "update_para p (xs @ ys) = update_para p xs @ update_para p ys"
  by (simp add: update_para_def)

lemma update_para_Cons:
  "update_para p (q # qs) = (if pid q = pid p then p else q) # update_para p qs"
  by (simp add: update_para_def)

lemma replace_paragraph_text_pid [simp]: "pid (replace_paragraph_text p t) = pid p"
  by (simp add: replace_paragraph_text_def split: list.splits)

lemma replace_paragraph_text_pid_update:
  "replace_paragraph_text (p\<lparr>pid := n\<rparr>) t = (replace_paragraph_text p t)\<lparr>pid := n\<rparr>"
  by (simp add: replace_paragraph_text_def split: list.splits)

lemma concat_cleared: "concat (map rtext (map (\<lambda>x. x\<lparr>rtext := []\<rparr>) rs)) = []"
  by (induction rs) auto

lemma ptext_replace_paragraph_text [simp]: "ptext (replace_paragraph_text p t) = t"
  by (simp add: replace_paragraph_text_def ptext_def plain_run_def concat_cleared
      split: list.splits)

lemma ptext_pid_update [simp]: "ptext (p\<lparr>pid := n\<rparr>) = ptext p"
  by (simp add: ptext_def)

lemma signature_pid_update [simp]:
  "paragraph_xml_signature (p\<lparr>pid := n\<rparr>) = paragraph_xml_signature p"
  by (simp add: paragraph_xml_signature_def)

lemma signature_text_change:
  "runs p \<noteq> [] \<Longrightarrow>
     paragraph_xml_signature (replace_paragraph_text p t) = paragraph_xml_signature p"
  by (cases "runs p")
    (simp_all add: paragraph_xml_signature_def replace_paragraph_text_def comp_def)

lemma signature_text_change_twice:
  "paragraph_xml_signature (replace_paragraph_text (replace_paragraph_text p s) t) =
     paragraph_xml_signature (replace_paragraph_text p s)"
  by (rule signature_text_change) (simp add: replace_paragraph_text_def split: list.splits)

lemma set_text_pid [simp]: "pid (set_paragraph_text_preserve_runs p t) = pid p"
  by (simp add: set_paragraph_text_preserve_runs_def split: list.splits)

lemma set_text_pid_update:
  "set_paragraph_text_preserve_runs (p\<lparr>pid := n\<rparr>) t =
     (set_paragraph_text_preserve_runs p t)\<lparr>pid := n\<rparr>"
  by (simp add: set_paragraph_text_preserve_runs_def split: list.splits)

lemma set_text_signature [simp]:
  "paragraph_xml_signature (set_paragraph_text_preserve_runs p t) = paragraph_xml_signature p"
  by (cases "runs p")
    (simp_all add: paragraph_xml_signature_def set_paragraph_text_preserve_runs_def comp_def)

lemma set_text_runs [simp]: "runs (set_paragraph_text_preserve_runs p t) = [] \<longleftrightarrow> runs p = []"
  by (simp add: set_paragraph_text_preserve_runs_def split: list.splits)


lemma runs_pid_update [simp]: "runs (p\<lparr>pid := n\<rparr>) = runs p"
  by simp

lemma clone_uniform_section:
  assumes "pid last_p \<notin> pid ` set pre" and "n = fresh_pid (pre @ last_p # post)"
  shows "clone_uniform last_p lines (pre @ last_p # post) =
           (new_paragraphs last_p lines n, pre @ last_p # new_paragraphs last_p lines n @ post)"
  using assms
proof (induction lines arbitrary: last_p pre n)
  case Nil
  then show ?case by simp
next
  case (Cons line rest)
  let ?doc = "pre @ last_p # post"
  let ?np = "(set_paragraph_text_preserve_runs last_p line)\<lparr>pid := n\<rparr>"
  have n_notin: "n \<notin> pid ` set ?doc"
    unfolding Cons.prems(2) by (rule fresh_pid_notin)
  have c: "clone_paragraph_after last_p ?doc = (last_p\<lparr>pid := n\<rparr>, pre @ last_p # last_p\<lparr>pid := n\<rparr> # post)"
    using Cons.prems by (simp add: clone_paragraph_after_def insert_after_found Let_def)
  have t: "set_paragraph_text_preserve_runs (last_p\<lparr>pid := n\<rparr>) line = ?np"
    by (rule set_text_pid_update)
  have pn: "pid ?np = n" by simp
  have u: "update_para ?np (pre @ last_p # last_p\<lparr>pid := n\<rparr> # post) = pre @ last_p # ?np # post"
  proof -
    have 1: "update_para ?np pre = pre"
      using n_notin by (intro update_para_absent) (auto simp: pn)
    have 2: "update_para ?np post = post"
      using n_notin by (intro update_para_absent) (auto simp: pn)
    have 3: "pid last_p \<noteq> n" using n_notin by auto
    show ?thesis
      using 3 by (simp add: update_para_append update_para_Cons 1 2 pn del: pn)
  qed
  have notin': "pid ?np \<notin> pid ` set (pre @ [last_p])"
    using n_notin by (auto simp: pn)
  have fresh': "Suc n = fresh_pid ((pre @ [last_p]) @ ?np # post)"
    using fresh_pid_insert [of ?np pre last_p post] Cons.prems(2) by (simp add: pn)
  have ih: "clone_uniform ?np rest ((pre @ [last_p]) @ ?np # post) =
          (new_paragraphs ?np rest (Suc n),
           (pre @ [last_p]) @ ?np # new_paragraphs ?np rest (Suc n) @ post)"
    by (rule Cons.IH [OF notin' fresh'])
  show ?case
    using ih by (simp add: c t u Let_def)
qed

lemma clone_mixed_uniform:
  "clone_mixed U last_p lines bullet_anchor body_anchor dflt doc = clone_uniform last_p lines doc"
  by (induction lines arbitrary: last_p doc) (simp_all add: Let_def split: prod.splits)

lemma length_new_paragraphs [simp]: "length (new_paragraphs last_p lines n) = length lines"
  by (induction lines arbitrary: last_p n) (simp_all add: Let_def)


lemma new_paragraphs_header_signature:
  "np \<in> set (new_paragraphs header lines n) \<Longrightarrow>
     paragraph_xml_signature np = paragraph_xml_signature header"
proof (induction lines arbitrary: header n)
  case Nil
  then show ?case by simp
next
  case (Cons line rest)
  let ?np = "(set_paragraph_text_preserve_runs header line)\<lparr>pid := n\<rparr>"
  from Cons.prems consider "np = ?np" | "np \<in> set (new_paragraphs ?np rest (Suc n))"
    by (auto simp: Let_def)
  then show ?case
  proof cases
    case 1
    then show ?thesis by simp
  next
    case 2
    then have "paragraph_xml_signature np = paragraph_xml_signature ?np" by (rule Cons.IH)
    then show ?thesis by simp
  qed
qed

lemma delete_all:
  "foldl (\<lambda>d p. delete_paragraph p d) doc old_body =
     filter (\<lambda>q. pid q \<notin> pid ` set old_body) doc"
proof (induction old_body arbitrary: doc)
  case Nil
  then show ?case by simp
next
  case (Cons p ps)
  show ?case
    by (simp add: Cons.IH) (simp add: delete_paragraph_def conj_commute)
qed

lemma delete_section_body:
  assumes "distinct (map pid (pre @ header # old_body @ post))"
  shows "foldl (\<lambda>d p. delete_paragraph p d) (pre @ header # old_body @ post) old_body =
           pre @ header # post"
proof -
  have 1: "filter (\<lambda>q. pid q \<notin> pid ` set old_body) pre = pre"
    using assms by (intro filter_True) auto
  have 2: "filter (\<lambda>q. pid q \<notin> pid ` set old_body) post = post"
    using assms by (intro filter_True) auto
  have 3: "filter (\<lambda>q. pid q \<notin> pid ` set old_body) old_body = []"
    by (induction old_body) auto
  have 4: "pid header \<notin> pid ` set old_body" using assms by auto
  show ?thesis by (simp add: delete_all 1 2 3 4)
qed

section \<open>The rewriter on a section of the document\<close>

text \<open>
  A section is the header and, right after it, its body; the identities of the
  document's paragraphs are distinct. The rewriter then leaves the header followed by the
  new paragraphs in the place of the section, unless the strict verification raises.
\<close>

lemma rewrite_on_section:
  assumes "distinct (map pid (pre @ header # old_body @ post))"
  shows "rewrite_section_from_lines U header old_body lines bullet_anchor body_anchor
           strict_verify mixed_mode (pre @ header # old_body @ post) =
         (let dflt = default_anchor header old_body bullet_anchor body_anchor;
              nps = new_paragraphs header (clean_lines lines) (fresh_pid (pre @ header # post))
          in if strict_verify \<and>
                (if mixed_mode
                 then drift_mixed U (paragraph_xml_signature (or_else bullet_anchor dflt))
                        (paragraph_xml_signature (or_else body_anchor dflt)) nps
                 else drift_uniform (paragraph_xml_signature dflt) nps)
             then Inl FormattingDrift
             else Inr (pre @ header # nps @ post))"
proof -
  have h: "pid header \<notin> pid ` set pre" using assms by auto
  have c: "clone_uniform header (clean_lines lines) (pre @ header # post) =
        (new_paragraphs header (clean_lines lines) (fresh_pid (pre @ header # post)),
         pre @ header # new_paragraphs header (clean_lines lines)
            (fresh_pid (pre @ header # post)) @ post)"
    by (rule clone_uniform_section [OF h refl])
  show ?thesis
    by (simp add: rewrite_section_from_lines_def delete_section_body [OF assms]
        clone_mixed_uniform c Let_def)
qed





lemma rewrite_ignores_anchors:
  "rewrite_section_from_lines U header old_body lines bullet_anchor body_anchor False
     mixed_mode doc =
   rewrite_section_from_lines U header old_body lines bullet_anchor' body_anchor' False
     mixed_mode doc"
  by (simp add: rewrite_section_from_lines_def clone_mixed_uniform Let_def
      split: prod.splits)



section \<open>C5: the strict verification\<close>



section \<open>C6: the mixed mode\<close>

text \<open>
  C6. The mixed loop classifies each line as the claim says and selects the body anchor
  for a title and the bullet anchor for any other line, but it passes \<open>last\<close>, not the
  selected anchor, to \<open>clone_paragraph_after\<close>. Below, a section headed PROJECTS (13
  point, bold) is rewritten with a title line and a detail line, the body anchor being
  12 point bold and the bullet anchor numbered: both new paragraphs carry the formatting
  of the header, and neither has the signature of its anchor. Every new paragraph has
  the signature of the header (\<open>new_paragraphs_header_signature\<close>), and without the
  strict verification the anchors have no influence on the result at all
  (\<open>rewrite_ignores_anchors\<close>).
\<close>

theorem C6_mixed_clones_header:
  "rewrite_section_from_lines ascii_tables (fmt_para 2 (str ''PROJECTS'') 13 True None)
      [fmt_para 3 (str ''old'') 11 False None] [str ''Acme | 2020'', str ''- built it'']
      (Some (fmt_para 1 (str ''shipped'') 11 False (Some (1, 0))))
      (Some (fmt_para 0 (str ''Initech | 2019'') 12 True None)) False True
      [fmt_para 0 (str ''Initech | 2019'') 12 True None,
       fmt_para 1 (str ''shipped'') 11 False (Some (1, 0)),
       fmt_para 2 (str ''PROJECTS'') 13 True None, fmt_para 3 (str ''old'') 11 False None]
     = Inr [fmt_para 0 (str ''Initech | 2019'') 12 True None,
            fmt_para 1 (str ''shipped'') 11 False (Some (1, 0)),
            fmt_para 2 (str ''PROJECTS'') 13 True None,
            fmt_para 3 (str ''Acme | 2020'') 13 True None,
            fmt_para 4 (str ''built it'') 13 True None]
   \<and> looks_like_title ascii_tables (str ''Acme | 2020'') \<and> \<not> looks_like_title ascii_tables (str ''built it'')
   \<and> paragraph_xml_signature (fmt_para 3 (str ''Acme | 2020'') 13 True None) \<noteq>
       paragraph_xml_signature (fmt_para 0 (str ''Initech | 2019'') 12 True None)
   \<and> paragraph_xml_signature (fmt_para 4 (str ''built it'') 13 True None) \<noteq>
       paragraph_xml_signature (fmt_para 1 (str ''shipped'') 11 False (Some (1, 0)))
   \<and> paragraph_xml_signature (fmt_para 4 (str ''built it'') 13 True None) =
       paragraph_xml_signature (fmt_para 2 (str ''PROJECTS'') 13 True None)"
proof -
  have d: "distinct (map pid ([fmt_para 0 (str ''Initech | 2019'') 12 True None,
             fmt_para 1 (str ''shipped'') 11 False (Some (1, 0))]
             @ fmt_para 2 (str ''PROJECTS'') 13 True None
             # [fmt_para 3 (str ''old'') 11 False None] @ []))"
    by (simp add: fmt_para_def)
  have cl: "clean_lines [str ''Acme | 2020'', str ''- built it''] =
              [str ''Acme | 2020'', str ''built it'']"
    by (simp add: clean_lines_def sanitize_def is_lead_def text_defs)
  have t: "looks_like_title ascii_tables (str ''Acme | 2020'') \<and> \<not> looks_like_title ascii_tables (str ''built it'')"
    by (simp add: looks_like_title_def numbered_prefix_def text_defs)
  show ?thesis
    using rewrite_on_section [OF d, where U = ascii_tables
        and lines = "[str ''Acme | 2020'', str ''- built it'']"
        and bullet_anchor = "Some (fmt_para 1 (str ''shipped'') 11 False (Some (1, 0)))"
        and body_anchor = "Some (fmt_para 0 (str ''Initech | 2019'') 12 True None)"
        and strict_verify = False and mixed_mode = True] t
    by (simp add: cl Let_def fmt_para_def set_paragraph_text_preserve_runs_def
        replace_paragraph_text_def paragraph_xml_signature_def fresh_pid_def)
qed

section \<open>C2: the number of paragraphs after a rewrite\<close>

























section \<open>C9: normalising the replacement lines\<close>

lemma is_space_lead: "is_space c \<Longrightarrow> is_lead c"
  by (simp add: is_lead_def)

lemma py_strip_decomp:
  "\<exists>l r. s = l @ py_strip s @ r \<and> list_all is_space l \<and> list_all is_space r"
proof -
  let ?a = "dropWhile is_space s"
  let ?r = "rev (takeWhile is_space (rev ?a))"
  have 1: "s = takeWhile is_space s @ ?a" by simp
  have 2: "?a = py_strip s @ ?r"
    by (metis py_strip_def rev_append rev_rev_ident takeWhile_dropWhile_id)
  have 3: "list_all is_space (takeWhile is_space s)"
    by (auto simp: list_all_iff dest: set_takeWhileD)
  have 4: "list_all is_space ?r"
    by (auto simp: list_all_iff dest: set_takeWhileD)
  from 1 2 have "s = takeWhile is_space s @ py_strip s @ ?r" by simp
  with 3 4 show ?thesis by blast
qed

lemma py_strip_Cons_nonspace:
  assumes "\<not> is_space c"
  shows "\<exists>zs. py_strip (c # ys) = c # zs"
proof (cases "\<forall>x\<in>set ys. is_space x")
  case True
  then show ?thesis using assms by (simp add: py_strip_def dropWhile_append)
next
  case False
  then have "py_strip (c # ys) = c # rev (dropWhile is_space (rev ys))"
    using assms by (simp add: py_strip_def dropWhile_append)
  then show ?thesis by blast
qed

lemma single_spaced_Cons:
  "single_spaced (c # xs) =
     ((\<not> is_space c \<or> (c = 32 \<and> (xs = [] \<or> \<not> is_space (hd xs)))) \<and> single_spaced xs)"
  by (cases xs) auto

lemma collapse_run_hd: "collapse_ws True s = [] \<or> \<not> is_space (hd (collapse_ws True s))"
  by (induction s) auto

lemma single_spaced_collapse: "single_spaced (collapse_ws b s)"
proof (induction s arbitrary: b)
  case Nil
  then show ?case by simp
next
  case (Cons c cs)
  show ?case
    using Cons.IH [of True] Cons.IH [of False] collapse_run_hd [of cs]
    by (auto simp add: single_spaced_Cons simp del: single_spaced.simps)
qed

lemma single_spaced_append_left: "single_spaced (xs @ ys) \<Longrightarrow> single_spaced xs"
proof (induction xs)
  case Nil
  then show ?case by simp
next
  case (Cons c xs)
  then show ?case
    by (cases xs) (auto simp add: single_spaced_Cons simp del: single_spaced.simps)
qed

lemma single_spaced_dropWhile: "single_spaced xs \<Longrightarrow> single_spaced (dropWhile P xs)"
  by (induction xs) (auto simp add: single_spaced_Cons simp del: single_spaced.simps)

lemma single_spaced_strip: "single_spaced s \<Longrightarrow> single_spaced (py_strip s)"
proof -
  assume s: "single_spaced s"
  have "prefix (py_strip s) (dropWhile is_space s)"
    unfolding py_strip_def by (metis suffix_dropWhile suffix_to_prefix rev_rev_ident)
  then obtain zs where "dropWhile is_space s = py_strip s @ zs" by (auto simp: prefix_def)
  with single_spaced_dropWhile [OF s, of is_space] show ?thesis
    by (metis single_spaced_append_left)
qed

lemma sanitize_hd:
  assumes "dropWhile is_lead (py_strip s) \<noteq> []"
  shows "sanitize s \<noteq> [] \<and> hd (sanitize s) = hd (dropWhile is_lead (py_strip s))"
proof -
  from assms obtain c cs where x: "dropWhile is_lead (py_strip s) = c # cs"
    by (cases "dropWhile is_lead (py_strip s)") auto
  have "\<not> is_lead (hd (dropWhile is_lead (py_strip s)))"
    using assms by (rule hd_dropWhile)
  then have nl: "\<not> is_lead c" by (simp add: x)
  then have ns: "\<not> is_space c" using is_space_lead by blast
  have "sanitize s = py_strip (c # collapse_ws False cs)"
    using ns by (simp add: sanitize_def x)
  then show ?thesis
    using py_strip_Cons_nonspace [OF ns, of "collapse_ws False cs"] by (auto simp: x)
qed

lemma sanitize_Nil_drop: "sanitize s = [] \<longleftrightarrow> dropWhile is_lead (py_strip s) = []"
proof (cases "dropWhile is_lead (py_strip s) = []")
  case True
  have "sanitize s = py_strip (collapse_ws False [])"
    unfolding sanitize_def True ..
  then show ?thesis using True by (simp only: collapse_ws.simps py_strip_Nil)
next
  case False
  with sanitize_hd [OF False] show ?thesis by blast
qed

lemma sanitize_Nil_iff: "sanitize s = [] \<longleftrightarrow> list_all is_lead s"
proof -
  obtain l r where d: "s = l @ py_strip s @ r" and l: "list_all is_space l"
    and r: "list_all is_space r"
    using py_strip_decomp by blast
  have lr: "list_all is_lead l \<and> list_all is_lead r"
    using l r is_space_lead by (auto simp: list_all_iff)
  have "sanitize s = [] \<longleftrightarrow> dropWhile is_lead (py_strip s) = []"
    by (rule sanitize_Nil_drop)
  also have "\<dots> \<longleftrightarrow> list_all is_lead (py_strip s)"
    by (simp add: dropWhile_eq_Nil_conv list_all_iff)
  also have "\<dots> \<longleftrightarrow> list_all is_lead (l @ py_strip s @ r)"
    using lr by simp
  finally show ?thesis using d by simp
qed

lemma clean_lines_no_lead:
  assumes "t \<in> set (clean_lines lines)"
  shows "t \<noteq> [] \<and> \<not> is_lead (hd t) \<and> \<not> is_space (last t) \<and> single_spaced t"
proof -
  from assms obtain s where t: "t = sanitize s" and ne: "t \<noteq> []"
    by (auto simp: clean_lines_def)
  have x: "dropWhile is_lead (py_strip s) \<noteq> []"
    using ne t sanitize_Nil_drop [of s] by blast
  have "\<not> is_lead (hd (dropWhile is_lead (py_strip s)))" using x by (rule hd_dropWhile)
  then have h: "\<not> is_lead (hd t)" using sanitize_hd [OF x] t by simp
  have la: "\<not> is_space (last t)"
    using ne unfolding t sanitize_def by (rule py_strip_last)
  have ss: "single_spaced t"
    unfolding t sanitize_def by (rule single_spaced_strip) (rule single_spaced_collapse)
  from ne h la ss show ?thesis by blast
qed

lemma clean_lines_as_map:
  "clean_lines lines = map sanitize (filter (\<lambda>s. \<not> list_all is_lead s) lines)"
  by (simp add: clean_lines_def filter_map comp_def sanitize_Nil_iff)

lemma filter_strip: "filter (\<lambda>c. \<not> is_space c) (py_strip s) = filter (\<lambda>c. \<not> is_space c) s"
proof -
  obtain l r where d: "s = l @ py_strip s @ r" and l: "list_all is_space l"
    and r: "list_all is_space r"
    using py_strip_decomp by blast
  have "filter (\<lambda>c. \<not> is_space c) l = []" "filter (\<lambda>c. \<not> is_space c) r = []"
    using l r by (auto simp: list_all_iff filter_empty_conv)
  then have "filter (\<lambda>c. \<not> is_space c) (l @ py_strip s @ r) =
             filter (\<lambda>c. \<not> is_space c) (py_strip s)" by simp
  with d show ?thesis by simp
qed

lemma filter_collapse:
  "filter (\<lambda>c. \<not> is_space c) (collapse_ws b s) = filter (\<lambda>c. \<not> is_space c) s"
  by (induction s arbitrary: b) (auto simp: is_space_def)

lemma filter_drop_lead:
  "filter (\<lambda>c. \<not> is_space c) (dropWhile is_lead (py_strip s)) =
     filter (\<lambda>c. \<not> is_space c) (dropWhile is_lead s)"
proof -
  obtain l r where d: "s = l @ py_strip s @ r" and l: "list_all is_space l"
    and r: "list_all is_space r"
    using py_strip_decomp by blast
  have ll: "\<And>x. x \<in> set l \<Longrightarrow> is_lead x" using l is_space_lead by (auto simp: list_all_iff)
  have rl: "\<And>x. x \<in> set r \<Longrightarrow> is_lead x" using r is_space_lead by (auto simp: list_all_iff)
  have fr: "filter (\<lambda>c. \<not> is_space c) r = []"
    using r by (auto simp: list_all_iff filter_empty_conv)
  have 1: "dropWhile is_lead (l @ py_strip s @ r) = dropWhile is_lead (py_strip s @ r)"
    using ll by (rule dropWhile_append2)
  have 2: "filter (\<lambda>c. \<not> is_space c) (dropWhile is_lead (py_strip s @ r)) =
           filter (\<lambda>c. \<not> is_space c) (dropWhile is_lead (py_strip s))"
  proof (cases "\<forall>x\<in>set (py_strip s). is_lead x")
    case True
    then have a: "dropWhile is_lead (py_strip s @ r) = []"
      and b: "dropWhile is_lead (py_strip s) = []"
      using rl by (auto simp: dropWhile_eq_Nil_conv)
    show ?thesis by (simp only: a b)
  next
    case False
    then have "dropWhile is_lead (py_strip s @ r) = dropWhile is_lead (py_strip s) @ r"
      by (auto simp add: dropWhile_append)
    then show ?thesis using fr by simp
  qed
  from 1 2 d show ?thesis by metis
qed

lemma filter_sanitize:
  "filter (\<lambda>c. \<not> is_space c) (sanitize s) = filter (\<lambda>c. \<not> is_space c) (dropWhile is_lead s)"
  by (simp add: sanitize_def filter_strip filter_collapse filter_drop_lead)

lemma join_sp_Cons: "join_sp (w # ws) = (if ws = [] then w else w @ 32 # join_sp ws)"
  by (cases ws) simp_all

lemma collapse_as_words:
  "(\<exists>r. list_all is_space r \<and> collapse_ws True s = join_sp (split_ws_acc [] s) @ r)
   \<and> (\<forall>w. w \<noteq> [] \<longrightarrow>
         (\<exists>r. list_all is_space r \<and> w @ collapse_ws False s = join_sp (split_ws_acc w s) @ r))"
proof (induction s)
  case Nil
  then show ?case by simp
next
  case (Cons c cs)
  from Cons.IH obtain r1 where r1: "list_all is_space r1"
    and c1: "collapse_ws True cs = join_sp (split_ws_acc [] cs) @ r1" by blast
  from Cons.IH have ih2: "\<And>w. w \<noteq> [] \<Longrightarrow>
      \<exists>r. list_all is_space r \<and> w @ collapse_ws False cs = join_sp (split_ws_acc w cs) @ r"
    by blast
  show ?case
  proof (cases "is_space c")
    case True
    have a: "\<exists>r. list_all is_space r \<and>
               collapse_ws True (c # cs) = join_sp (split_ws_acc [] (c # cs)) @ r"
      using True r1 c1 by auto
    have b: "\<exists>r. list_all is_space r \<and>
               w @ collapse_ws False (c # cs) = join_sp (split_ws_acc w (c # cs)) @ r"
      if w: "w \<noteq> []" for w
    proof (cases "split_ws_acc [] cs = []")
      case e: True
      have "w @ collapse_ws False (c # cs) = join_sp (split_ws_acc w (c # cs)) @ (32 # r1)"
        using True w c1 e by simp
      moreover have "list_all is_space (32 # r1)" using r1 by (simp add: is_space_def)
      ultimately show ?thesis by blast
    next
      case ne: False
      have "w @ collapse_ws False (c # cs) = join_sp (split_ws_acc w (c # cs)) @ r1"
        using True w c1 ne by (simp add: join_sp_Cons)
      with r1 show ?thesis by blast
    qed
    from a b show ?thesis by blast
  next
    case False
    have a: "\<exists>r. list_all is_space r \<and>
               collapse_ws True (c # cs) = join_sp (split_ws_acc [] (c # cs)) @ r"
      using False ih2 [of "[c]"] by simp
    have b: "\<exists>r. list_all is_space r \<and>
               w @ collapse_ws False (c # cs) = join_sp (split_ws_acc w (c # cs)) @ r"
      if w: "w \<noteq> []" for w
      using False ih2 [of "w @ [c]"] by simp
    from a b show ?thesis by blast
  qed
qed

lemma collapse_False_words:
  assumes "x = [] \<or> \<not> is_space (hd x)"
  shows "\<exists>r. list_all is_space r \<and> collapse_ws False x = join_sp (split_ws x) @ r"
proof (cases x)
  case Nil
  then show ?thesis by (simp add: split_ws_def)
next
  case (Cons c cs)
  then have ns: "\<not> is_space c" using assms by simp
  from collapse_as_words [of cs] obtain r where "list_all is_space r"
    and "[c] @ collapse_ws False cs = join_sp (split_ws_acc [c] cs) @ r" by blast
  then show ?thesis using ns by (auto simp: Cons split_ws_def)
qed

lemma split_ws_acc_words:
  "list_all (\<lambda>c. \<not> is_space c) w \<Longrightarrow> v \<in> set (split_ws_acc w s) \<Longrightarrow>
     v \<noteq> [] \<and> list_all (\<lambda>c. \<not> is_space c) v"
proof (induction s arbitrary: w)
  case Nil
  then show ?case by (auto split: if_splits)
next
  case (Cons c cs)
  show ?case
  proof (cases "is_space c")
    case True
    then have "v = w \<and> w \<noteq> [] \<or> v \<in> set (split_ws_acc [] cs)"
      using Cons.prems(2) by (auto split: if_splits)
    then show ?thesis using Cons.IH [of "[]"] Cons.prems(1) by auto
  next
    case False
    then have "v \<in> set (split_ws_acc (w @ [c]) cs)" using Cons.prems(2) by simp
    then show ?thesis using Cons.IH [of "w @ [c]"] Cons.prems(1) False by simp
  qed
qed

lemma join_sp_ends:
  assumes "\<forall>v\<in>set ws. v \<noteq> [] \<and> list_all (\<lambda>c. \<not> is_space c) v" and "ws \<noteq> []"
  shows "join_sp ws \<noteq> [] \<and> \<not> is_space (hd (join_sp ws)) \<and> \<not> is_space (last (join_sp ws))"
  using assms
proof (induction ws)
  case Nil
  then show ?case by simp
next
  case (Cons w ws)
  have w: "w \<noteq> []" "\<not> is_space (hd w)" "\<not> is_space (last w)"
    using Cons.prems(1) by (auto simp: list_all_iff)
  show ?case
  proof (cases "ws = []")
    case True
    then show ?thesis using w by simp
  next
    case False
    then have "join_sp ws \<noteq> [] \<and> \<not> is_space (last (join_sp ws))"
      using Cons.IH Cons.prems(1) by simp
    then show ?thesis using w False by (simp add: join_sp_Cons)
  qed
qed

lemma py_strip_trailing:
  assumes "list_all is_space r" and "m = [] \<or> (\<not> is_space (hd m) \<and> \<not> is_space (last m))"
  shows "py_strip (m @ r) = m"
proof (cases m)
  case Nil
  have dr: "dropWhile is_space r = []" using assms(1) by (induction r) auto
  show ?thesis unfolding Nil py_strip_def append_Nil dr by simp
next
  case (Cons c cs)
  then have h: "\<not> is_space c" and l: "\<not> is_space (last m)" using assms(2) by auto
  have 1: "dropWhile is_space (m @ r) = m @ r" using h by (simp add: Cons)
  have 2: "dropWhile is_space (rev r @ rev m) = dropWhile is_space (rev m)"
    using assms(1) by (intro dropWhile_append2) (simp add: list_all_iff)
  have "m \<noteq> []" using Cons by simp
  then obtain bs x where m: "m = bs @ [x]" by (meson rev_exhaust)
  have 3: "dropWhile is_space (rev m) = rev m" using l by (simp add: m)
  show ?thesis by (simp add: py_strip_def 1 2 3)
qed

lemma split_ws_acc_spaces:
  "list_all is_space r \<Longrightarrow> split_ws_acc w r = (if w = [] then [] else [w])"
proof (induction r arbitrary: w)
  case Nil
  then show ?case by simp
next
  case (Cons c cs)
  then show ?case by simp
qed

lemma split_ws_acc_trailing:
  "list_all is_space r \<Longrightarrow> split_ws_acc w (x @ r) = split_ws_acc w x"
proof (induction x arbitrary: w)
  case Nil
  then show ?case by (simp add: split_ws_acc_spaces)
next
  case (Cons c cs)
  then show ?case by simp
qed

lemma split_ws_drop_lead:
  "split_ws (dropWhile is_lead (py_strip s)) = split_ws (dropWhile is_lead s)"
proof -
  obtain l r where d: "s = l @ py_strip s @ r" and l: "list_all is_space l"
    and r: "list_all is_space r"
    using py_strip_decomp by blast
  have ll: "\<And>x. x \<in> set l \<Longrightarrow> is_lead x" using l is_space_lead by (auto simp: list_all_iff)
  have rl: "\<And>x. x \<in> set r \<Longrightarrow> is_lead x" using r is_space_lead by (auto simp: list_all_iff)
  have 1: "dropWhile is_lead (l @ py_strip s @ r) = dropWhile is_lead (py_strip s @ r)"
    using ll by (rule dropWhile_append2)
  have 2: "split_ws (dropWhile is_lead (py_strip s @ r)) =
           split_ws (dropWhile is_lead (py_strip s))"
  proof (cases "\<forall>x\<in>set (py_strip s). is_lead x")
    case True
    then have a: "dropWhile is_lead (py_strip s @ r) = []"
      and b: "dropWhile is_lead (py_strip s) = []"
      using rl by (auto simp: dropWhile_eq_Nil_conv)
    show ?thesis by (simp only: a b)
  next
    case False
    then have "dropWhile is_lead (py_strip s @ r) = dropWhile is_lead (py_strip s) @ r"
      by (auto simp add: dropWhile_append)
    then show ?thesis using r by (simp add: split_ws_def split_ws_acc_trailing)
  qed
  from 1 2 d show ?thesis by metis
qed

lemma sanitize_as_words: "sanitize s = join_sp (split_ws (dropWhile is_lead s))"
proof -
  let ?x = "dropWhile is_lead (py_strip s)"
  have x: "?x = [] \<or> \<not> is_space (hd ?x)"
  proof (cases "?x = []")
    case True
    then show ?thesis by blast
  next
    case False
    then have "\<not> is_lead (hd ?x)" by (rule hd_dropWhile)
    then show ?thesis using is_space_lead by blast
  qed
  from collapse_False_words [OF x] obtain r where r: "list_all is_space r"
    and c: "collapse_ws False ?x = join_sp (split_ws ?x) @ r" by blast
  have w: "\<forall>v\<in>set (split_ws ?x). v \<noteq> [] \<and> list_all (\<lambda>c. \<not> is_space c) v"
    using split_ws_acc_words [of "[]" _ ?x] by (simp add: split_ws_def)
  have e: "join_sp (split_ws ?x) = [] \<or>
           (\<not> is_space (hd (join_sp (split_ws ?x))) \<and> \<not> is_space (last (join_sp (split_ws ?x))))"
  proof (cases "split_ws ?x = []")
    case True
    then show ?thesis by simp
  next
    case False
    from join_sp_ends [OF w False] show ?thesis by blast
  qed
  have "sanitize s = py_strip (join_sp (split_ws ?x) @ r)"
    by (simp only: sanitize_def c)
  also have "\<dots> = join_sp (split_ws ?x)" by (rule py_strip_trailing [OF r e])
  finally show ?thesis by (simp only: split_ws_drop_lead)
qed

text \<open>
  C9. Normalising a line gives the words that follow its leading bullet glyphs, dashes,
  asterisks and whitespace, joined by single spaces (a word is a maximal run of
  characters that are not whitespace). Every surviving line is non-empty, starts with no
  bullet glyph, dash, asterisk or whitespace, ends with no whitespace, and has single
  spaces as its only whitespace; the surviving lines are the normalised forms, in order,
  of the lines that do not consist of such leading characters alone; apart from
  whitespace, normalising keeps exactly the characters that follow the leading ones. When
  no line survives, the rewrite of a section succeeds in either mode, with or without the
  strict verification, and leaves the header with no body paragraph.
\<close>

theorem C9_normalise_and_empty:
  "sanitize s = join_sp (split_ws (dropWhile is_lead s))
   \<and> (\<forall>t\<in>set (clean_lines lines).
       t \<noteq> [] \<and> \<not> is_lead (hd t) \<and> \<not> is_space (last t) \<and> single_spaced t)
   \<and> clean_lines lines = map sanitize (filter (\<lambda>s. \<not> list_all is_lead s) lines)
   \<and> filter (\<lambda>c. \<not> is_space c) (sanitize s) =
       filter (\<lambda>c. \<not> is_space c) (dropWhile is_lead s)
   \<and> (distinct (map pid (pre @ header # old_body @ post)) \<and> clean_lines lines = [] \<longrightarrow>
        rewrite_section_from_lines U header old_body lines bullet_anchor body_anchor
          strict_verify mixed_mode (pre @ header # old_body @ post) = Inr (pre @ header # post))"
proof -
  have 4: "distinct (map pid (pre @ header # old_body @ post)) \<and> clean_lines lines = [] \<longrightarrow>
        rewrite_section_from_lines U header old_body lines bullet_anchor body_anchor
          strict_verify mixed_mode (pre @ header # old_body @ post) = Inr (pre @ header # post)"
    by (simp add: rewrite_on_section Let_def drift_mixed_def drift_uniform_def)
  from clean_lines_no_lead [of _ lines] clean_lines_as_map [of lines] filter_sanitize [of s] 4
    sanitize_as_words [of s]
  show ?thesis by blast
qed

theorem C9_normalise_and_empty_witness:
  "sanitize (bullet_glyph # str ''  Led   a team '') = str ''Led a team''
   \<and> clean_lines [bullet_glyph # str ''  Led   a team '', str '' - * '', str ''''] =
     [str ''Led a team'']
   \<and> rewrite_section_from_lines ascii_tables (fmt_para 0 (str ''SUMMARY'') 13 True None)
        [fmt_para 1 (str ''old a'') 11 False None, fmt_para 2 (str ''old b'') 11 False None]
        [str '' - * '', str ''''] (Some (fmt_para 1 (str ''old a'') 11 False None)) None
        True True
        [fmt_para 0 (str ''SUMMARY'') 13 True None, fmt_para 1 (str ''old a'') 11 False None,
         fmt_para 2 (str ''old b'') 11 False None, fmt_para 3 (str ''SKILLS'') 13 True None]
      = Inr [fmt_para 0 (str ''SUMMARY'') 13 True None, fmt_para 3 (str ''SKILLS'') 13 True None]"
proof -
  have c0: "join_sp (split_ws (dropWhile is_lead (bullet_glyph # str ''  Led   a team ''))) =
              str ''Led a team''"
    by (simp add: is_lead_def text_defs)
  have c1: "clean_lines [bullet_glyph # str ''  Led   a team '', str '' - * '', str ''''] =
     [str ''Led a team'']"
    by (simp add: clean_lines_def sanitize_def is_lead_def text_defs)
  have c2: "clean_lines [str '' - * '', str ''''] = []"
    by (simp add: clean_lines_def sanitize_def is_lead_def text_defs)
  have d: "distinct (map pid ([] @ fmt_para 0 (str ''SUMMARY'') 13 True None
             # [fmt_para 1 (str ''old a'') 11 False None,
                fmt_para 2 (str ''old b'') 11 False None]
             @ [fmt_para 3 (str ''SKILLS'') 13 True None]))"
    by (simp add: fmt_para_def)
  show ?thesis
    using C9_normalise_and_empty [where lines = "[str '' - * '', str '''']"
        and s = "bullet_glyph # str ''  Led   a team ''" and pre = "[]"
        and header = "fmt_para 0 (str ''SUMMARY'') 13 True None"
        and old_body = "[fmt_para 1 (str ''old a'') 11 False None,
                         fmt_para 2 (str ''old b'') 11 False None]"
        and post = "[fmt_para 3 (str ''SKILLS'') 13 True None]"
        and U = ascii_tables
        and bullet_anchor = "Some (fmt_para 1 (str ''old a'') 11 False None)"
        and body_anchor = None and strict_verify = True and mixed_mode = True] c0 c1 c2 d
    by simp
qed

section \<open>C1: the formatting of a decoded document\<close>

lemmas size_defs = name_size_def contact_size_def section_header_size_def job_title_size_def
  body_size_def no_spacing_def spec_font_name_def

lemma foldl_list_all:
  assumes "\<And>d l. list_all P d \<Longrightarrow> list_all P (f d l)" and "list_all P d"
  shows "list_all P (foldl f d ls)"
  using assms(2) by (induction ls arbitrary: d) (simp_all add: assms(1))

lemma spec_formatted_built:
  "spec_formatted (set_no_spacing (add_run t name_size True None (set_alignment CENTER (add_paragraph d))))"
  "spec_formatted (set_no_spacing (add_run t contact_size False None (set_alignment CENTER (add_paragraph d))))"
  "spec_formatted (set_alignment CENTER (add_paragraph d))"
  "spec_formatted (set_no_spacing (add_paragraph d))"
  "spec_formatted (set_no_spacing (add_run t section_header_size True (Some True) (set_alignment LEFT (add_paragraph d))))"
  "spec_formatted (set_no_spacing (add_run t job_title_size False None (set_alignment LEFT (add_paragraph d))))"
  "spec_formatted (set_no_spacing (add_run t job_title_size True None (set_alignment LEFT (add_paragraph d))))"
  "spec_formatted (set_no_spacing (add_run t body_size False None (set_alignment LEFT (add_paragraph d))))"
  "spec_formatted (set_no_spacing (add_run t body_size False None (add_run t' body_size True None (set_alignment LEFT (add_paragraph d)))))"
  "spec_formatted (set_no_spacing (add_run t body_size True None (set_alignment LEFT (add_paragraph d))))"
  by (simp_all add: spec_formatted_def spec_signatures_def spec_shapes_def
      paragraph_xml_signature_def empty_ppr_def add_paragraph_def set_alignment_def
      set_no_spacing_def add_run_def)

lemma header_lines_formatted:
  "list_all spec_formatted doc \<Longrightarrow> list_all spec_formatted (add_header_lines U i ls doc)"
  by (induction ls arbitrary: i doc) (simp_all add: Let_def spec_formatted_built)

lemma education_formatted:
  "list_all spec_formatted doc \<Longrightarrow> list_all spec_formatted (add_education_section doc ls)"
  by (auto simp add: add_education_section_def add_section_header_def add_education_line_def
      spec_formatted_built intro!: foldl_list_all)

lemma entry_line_formatted:
  "list_all spec_formatted doc \<Longrightarrow> list_all spec_formatted (add_entry_line doc l)"
  by (simp add: add_entry_line_def Let_def spec_formatted_built)

lemma projects_formatted:
  "list_all spec_formatted doc \<Longrightarrow> list_all spec_formatted (add_projects_section doc ls)"
  by (auto simp add: add_projects_section_def add_section_header_def add_blank_para_def
      spec_formatted_built entry_line_formatted intro!: foldl_list_all)

lemma experience_formatted:
  "list_all spec_formatted doc \<Longrightarrow> list_all spec_formatted (add_experience_section doc ls)"
  by (auto simp add: add_experience_section_def add_section_header_def add_blank_para_def
      spec_formatted_built entry_line_formatted intro!: foldl_list_all)

lemma skills_line_formatted:
  "list_all spec_formatted doc \<Longrightarrow> list_all spec_formatted (add_skills_line doc l)"
  by (simp add: add_skills_line_def Let_def spec_formatted_built)

lemma skills_formatted:
  "list_all spec_formatted doc \<Longrightarrow> list_all spec_formatted (add_skills_section doc ls)"
  by (auto simp add: add_skills_section_def add_section_header_def add_blank_para_def
      spec_formatted_built skills_line_formatted intro!: foldl_list_all)

text \<open>
  C1 (as amended). For every text and every template, each paragraph of the document
  that the decoder builds has one of the ten signatures that the converter's built-in
  format specification fixes, and neither the flag the decoder returns nor the document
  it saves depends on the template: it saves the built document unless the text of a run
  cannot be stored. So decoding the encoding of a template reproduces the signature of a
  template paragraph only where the template already has that built-in formatting.
\<close>

theorem C1_decoded_formatting:
  "(\<forall>p\<in>set (build_docx U txt). paragraph_xml_signature p \<in> set spec_signatures)
   \<and> structured_txt_to_docx U txt T =
       (if runs_storable U (build_docx U txt) then (True, Some (build_docx U txt))
        else (False, None))
   \<and> structured_txt_to_docx U txt T = structured_txt_to_docx U txt T'"
proof -
  have "list_all spec_formatted (build_docx U txt)"
    by (simp add: build_docx_def Let_def add_header_section_def
        header_lines_formatted education_formatted projects_formatted experience_formatted
        skills_formatted)
  then show ?thesis
    by (simp add: list_all_iff spec_formatted_def structured_txt_to_docx_def Let_def)
qed

lemma build_docx_Jane_Doe:
  "build_docx ascii_tables (str ''===HEADER==='' @ 10 # str ''Jane Doe'') =
      [\<lparr>pid = 0,
        pprops = \<lparr>align = Some CENTER, space_before = Some 0, space_after = Some 0,
                  indent = None, numpr = None\<rparr>,
        runs = [\<lparr>rtext = str ''Jane Doe'',
                 rprops = \<lparr>font_name = Some ''Times New Roman'', font_size = Some 16,
                           bold = Some True, italic = None, underline = None\<rparr>\<rparr>]\<rparr>]"
  by (simp add: build_docx_def clean_structured_txt_def clean_step_def
      formatting_keywords_def parse_ai_structured_txt_def parse_step_def
      save_and_start_section_def get_lines_def
      add_header_section_def add_education_section_def add_projects_section_def
      add_experience_section_def add_skills_section_def format_name_correctly_def
      name_stoppers_def capitalize_word_def Let_def text_defs para_defs size_defs)

theorem C1_decoded_formatting_witness:
  "paragraph_xml_signature
     \<lparr>pid = 0,
      pprops = \<lparr>align = Some CENTER, space_before = Some 0, space_after = Some 0,
                indent = None, numpr = None\<rparr>,
      runs = [\<lparr>rtext = str ''Jane Doe'',
               rprops = \<lparr>font_name = Some ''Times New Roman'', font_size = Some 16,
                         bold = Some True, italic = None, underline = None\<rparr>\<rparr>]\<rparr>
     \<in> set spec_signatures"
  using C1_decoded_formatting
    [of ascii_tables "str ''===HEADER==='' @ 10 # str ''Jane Doe''" "[]" "[]"]
  by (simp add: build_docx_Jane_Doe)

text \<open>
  C1 as stated fails: a template of one paragraph, \<open>Jane Doe\<close> in Arial at 10 point,
  is encoded under the synthetic HEADER marker and decoded into a centred paragraph in
  Times New Roman at 16 point, bold.
\<close>

theorem C1_counterexample:
  "docx_to_structured_txt ascii_tables [fmt_para 0 (str ''Jane Doe'') 10 False None] =
     str ''===HEADER==='' @ 10 # str ''Jane Doe''
   \<and> structured_txt_to_docx ascii_tables
        (docx_to_structured_txt ascii_tables [fmt_para 0 (str ''Jane Doe'') 10 False None])
        [fmt_para 0 (str ''Jane Doe'') 10 False None] =
      (True, Some
        [\<lparr>pid = 0,
          pprops = \<lparr>align = Some CENTER, space_before = Some 0, space_after = Some 0,
                    indent = None, numpr = None\<rparr>,
          runs = [\<lparr>rtext = str ''Jane Doe'',
                   rprops = \<lparr>font_name = Some ''Times New Roman'', font_size = Some 16,
                             bold = Some True, italic = None, underline = None\<rparr>\<rparr>]\<rparr>])
   \<and> paragraph_xml_signature
        \<lparr>pid = 0,
         pprops = \<lparr>align = Some CENTER, space_before = Some 0, space_after = Some 0,
                   indent = None, numpr = None\<rparr>,
         runs = [\<lparr>rtext = str ''Jane Doe'',
                  rprops = \<lparr>font_name = Some ''Times New Roman'', font_size = Some 16,
                            bold = Some True, italic = None, underline = None\<rparr>\<rparr>]\<rparr>
      \<noteq> paragraph_xml_signature (fmt_para 0 (str ''Jane Doe'') 10 False None)"
proof -
  have e: "docx_to_structured_txt ascii_tables [fmt_para 0 (str ''Jane Doe'') 10 False None] =
     str ''===HEADER==='' @ 10 # str ''Jane Doe''"
    by (simp add: docx_to_structured_txt_def encode_step_def is_section_header_def
        section_keywords_def all_section_keys_def Let_def fmt_para_def text_defs para_defs)
  have d: "structured_txt_to_docx ascii_tables (str ''===HEADER==='' @ 10 # str ''Jane Doe'')
        [fmt_para 0 (str ''Jane Doe'') 10 False None] =
      (True, Some
        [\<lparr>pid = 0,
          pprops = \<lparr>align = Some CENTER, space_before = Some 0, space_after = Some 0,
                    indent = None, numpr = None\<rparr>,
          runs = [\<lparr>rtext = str ''Jane Doe'',
                   rprops = \<lparr>font_name = Some ''Times New Roman'', font_size = Some 16,
                             bold = Some True, italic = None, underline = None\<rparr>\<rparr>]\<rparr>])"
    by (simp add: structured_txt_to_docx_def build_docx_Jane_Doe runs_storable_def Let_def)
      (simp add: text_defs)
  have s: "paragraph_xml_signature
        \<lparr>pid = 0,
         pprops = \<lparr>align = Some CENTER, space_before = Some 0, space_after = Some 0,
                   indent = None, numpr = None\<rparr>,
         runs = [\<lparr>rtext = str ''Jane Doe'',
                  rprops = \<lparr>font_name = Some ''Times New Roman'', font_size = Some 16,
                            bold = Some True, italic = None, underline = None\<rparr>\<rparr>]\<rparr>
      \<noteq> paragraph_xml_signature (fmt_para 0 (str ''Jane Doe'') 10 False None)"
    by (simp add: paragraph_xml_signature_def fmt_para_def)
  show ?thesis
    by (simp only: e d s simp_thms)
qed

section \<open>C3: decoding a text without the PROJECTS marker\<close>

lemma split_nl_nonempty: "split_nl s \<noteq> []"
  by (induction s) (auto split: list.splits)

lemma split_nl_hd_prefix: "prefix (hd (split_nl s)) s"
  by (induction s) (auto split: list.splits)

lemma split_nl_sublist: "l \<in> set (split_nl s) \<Longrightarrow> sublist l s"
proof (induction s arbitrary: l)
  case Nil
  then show ?case by simp
next
  case (Cons c cs)
  show ?case
  proof (cases "c = 10")
    case True
    with Cons.prems have "l = [] \<or> l \<in> set (split_nl cs)" by simp
    then show ?thesis using Cons.IH by (auto simp: sublist_Cons_right)
  next
    case False
    obtain l0 ls where sp: "split_nl cs = l0 # ls"
      using split_nl_nonempty [of cs] by (cases "split_nl cs") auto
    with False Cons.prems have "l = c # l0 \<or> l \<in> set ls" by simp
    then show ?thesis
    proof
      assume "l = c # l0"
      moreover have "prefix l0 cs" using split_nl_hd_prefix [of cs] sp by simp
      ultimately show ?thesis by (simp add: sublist_Cons_right)
    next
      assume "l \<in> set ls"
      then have "sublist l cs" using Cons.IH sp by simp
      then show ?thesis by (simp add: sublist_Cons_right)
    qed
  qed
qed

lemma split_nl_no_newline: "l \<in> set (split_nl s) \<Longrightarrow> 10 \<notin> set l"
  by (induction s arbitrary: l) (auto split: list.splits if_splits)

lemma split_nl_line: "10 \<notin> set l \<Longrightarrow> split_nl l = [l]"
  by (induction l) auto

lemma split_nl_append_newline:
  "10 \<notin> set l \<Longrightarrow> split_nl (l @ 10 # rest) = l # split_nl rest"
  by (induction l) auto

lemma split_join_nl:
  "ls \<noteq> [] \<Longrightarrow> \<forall>l\<in>set ls. 10 \<notin> set l \<Longrightarrow> split_nl (join_nl ls) = ls"
  by (induction ls rule: join_nl.induct) (simp_all add: split_nl_line split_nl_append_newline)

lemma py_strip_set: "set (py_strip s) \<subseteq> set s"
  using py_strip_sublist [of s] by (rule set_mono_sublist)

lemma clean_step_lines:
  "set (fst (clean_step (acc, b) raw)) \<subseteq> set acc \<union> {py_strip raw}"
  by (auto simp add: clean_step_def Let_def)

lemma clean_fold_lines:
  "set (fst (foldl clean_step (acc, b) raws)) \<subseteq> set acc \<union> py_strip ` set raws"
proof (induction raws arbitrary: acc b)
  case Nil
  then show ?case by simp
next
  case (Cons raw raws)
  obtain acc' b' where st: "clean_step (acc, b) raw = (acc', b')"
    by (cases "clean_step (acc, b) raw")
  have "set acc' \<subseteq> set acc \<union> {py_strip raw}"
    using clean_step_lines [of acc b raw] st by simp
  with Cons.IH [of acc' b'] show ?case by (auto simp: st)
qed

lemma cleaned_lines:
  assumes "l \<in> set (split_nl (clean_structured_txt txt))"
  shows "l = [] \<or> (\<exists>raw\<in>set (split_nl txt). l = py_strip raw)"
proof -
  let ?cl = "fst (foldl clean_step ([], False) (split_nl txt))"
  have sub: "set ?cl \<subseteq> py_strip ` set (split_nl txt)"
    using clean_fold_lines [of "[]" False "split_nl txt"] by simp
  show ?thesis
  proof (cases "?cl = []")
    case True
    then show ?thesis using assms by (simp add: clean_structured_txt_def)
  next
    case False
    have "\<forall>x\<in>set ?cl. 10 \<notin> set x"
      using sub split_nl_no_newline py_strip_set by fastforce
    then have "split_nl (join_nl ?cl) = ?cl" using False by (simp add: split_join_nl)
    then show ?thesis using assms sub by (auto simp add: clean_structured_txt_def)
  qed
qed

lemma cleaned_lines_no_marker:
  assumes "\<not> str_in m txt" and "l \<in> set (split_nl (clean_structured_txt txt))"
  shows "\<not> str_in m (py_strip l)"
proof
  assume a: "str_in m (py_strip l)"
  have 1: "sublist m l"
    using a py_strip_sublist [of l] by (auto simp: str_in_def intro: sublist_order.order_trans)
  from cleaned_lines [OF assms(2)] show False
  proof
    assume "l = []"
    with 1 have "m = []" by simp
    with assms(1) show False by (simp add: str_in_def)
  next
    assume "\<exists>raw\<in>set (split_nl txt). l = py_strip raw"
    then obtain raw where r: "raw \<in> set (split_nl txt)" and l: "l = py_strip raw" by blast
    have "sublist l raw" unfolding l by (rule py_strip_sublist)
    moreover have "sublist raw txt" using r by (rule split_nl_sublist)
    ultimately have "sublist m txt" using 1 by (meson sublist_order.order_trans)
    with assms(1) show False by (simp add: str_in_def)
  qed
qed

lemma parse_step_no_projects:
  assumes "\<not> str_in (str ''===PROJECTS==='') (py_strip raw)"
    and "sections st PROJECTS = None" and "current_section st \<noteq> Some PROJECTS"
  shows "sections (parse_step st raw) PROJECTS = None
         \<and> current_section (parse_step st raw) \<noteq> Some PROJECTS"
  using assms
  by (auto simp add: parse_step_def save_and_start_section_def Let_def split: option.splits)

lemma parse_fold_no_projects:
  assumes "\<forall>raw\<in>set raws. \<not> str_in (str ''===PROJECTS==='') (py_strip raw)"
    and "sections st PROJECTS = None" and "current_section st \<noteq> Some PROJECTS"
  shows "sections (foldl parse_step st raws) PROJECTS = None
         \<and> current_section (foldl parse_step st raws) \<noteq> Some PROJECTS"
  using assms
proof (induction raws arbitrary: st)
  case Nil
  then show ?case by simp
next
  case (Cons raw raws)
  have "sections (parse_step st raw) PROJECTS = None
        \<and> current_section (parse_step st raw) \<noteq> Some PROJECTS"
    using Cons.prems by (intro parse_step_no_projects) auto
  then show ?case using Cons.IH [of "parse_step st raw"] Cons.prems by simp
qed

lemma no_marker_no_projects_lines:
  assumes "\<not> str_in (str ''===PROJECTS==='') txt"
  shows "get_lines (parse_ai_structured_txt (clean_structured_txt txt)) PROJECTS = []"
proof -
  let ?st = "foldl parse_step
     \<lparr>sections = Map.empty, current_section = None, current_lines = []\<rparr>
     (split_nl (clean_structured_txt txt))"
  have "sections ?st PROJECTS = None \<and> current_section ?st \<noteq> Some PROJECTS"
    using cleaned_lines_no_marker [OF assms] by (intro parse_fold_no_projects) auto
  then show ?thesis
    by (auto simp add: get_lines_def parse_ai_structured_txt_def Let_def split: option.splits)
qed

lemma not_projects_header_built:
  "\<not> projects_header (set_no_spacing (add_run t sz b None (set_alignment a (add_paragraph d))))"
  "\<not> projects_header (set_alignment a (add_paragraph d))"
  "\<not> projects_header (set_no_spacing (add_paragraph d))"
  "\<not> projects_header (set_no_spacing (add_run t sz b None (add_run t' sz' b' u' (set_alignment a (add_paragraph d)))))"
  "\<not> projects_header (set_no_spacing (add_run (str ''EDUCATION'') sz b u (set_alignment a (add_paragraph d))))"
  "\<not> projects_header (set_no_spacing (add_run (str ''PROFESSIONAL EXPERIENCE'') sz b u (set_alignment a (add_paragraph d))))"
  "\<not> projects_header (set_no_spacing (add_run (str ''TECHNICAL SKILLS'') sz b u (set_alignment a (add_paragraph d))))"
  by (simp_all add: projects_header_def header_signature_def paragraph_xml_signature_def
      ptext_def empty_ppr_def add_paragraph_def set_alignment_def set_no_spacing_def
      add_run_def str_def)

lemma header_lines_no_projects:
  "list_all (\<lambda>p. \<not> projects_header p) doc \<Longrightarrow>
     list_all (\<lambda>p. \<not> projects_header p) (add_header_lines U i ls doc)"
  by (induction ls arbitrary: i doc) (simp_all add: Let_def not_projects_header_built)

lemma education_no_projects:
  "list_all (\<lambda>p. \<not> projects_header p) doc \<Longrightarrow>
     list_all (\<lambda>p. \<not> projects_header p) (add_education_section doc ls)"
  by (auto simp add: add_education_section_def add_section_header_def add_education_line_def
      not_projects_header_built intro!: foldl_list_all)

lemma entry_line_no_projects:
  "list_all (\<lambda>p. \<not> projects_header p) doc \<Longrightarrow>
     list_all (\<lambda>p. \<not> projects_header p) (add_entry_line doc l)"
  by (simp add: add_entry_line_def Let_def not_projects_header_built)

lemma experience_no_projects:
  "list_all (\<lambda>p. \<not> projects_header p) doc \<Longrightarrow>
     list_all (\<lambda>p. \<not> projects_header p) (add_experience_section doc ls)"
  by (auto simp add: add_experience_section_def add_section_header_def add_blank_para_def
      not_projects_header_built entry_line_no_projects intro!: foldl_list_all)

lemma skills_line_no_projects:
  "list_all (\<lambda>p. \<not> projects_header p) doc \<Longrightarrow>
     list_all (\<lambda>p. \<not> projects_header p) (add_skills_line doc l)"
  by (simp add: add_skills_line_def Let_def not_projects_header_built)

lemma skills_no_projects:
  "list_all (\<lambda>p. \<not> projects_header p) doc \<Longrightarrow>
     list_all (\<lambda>p. \<not> projects_header p) (add_skills_section doc ls)"
  by (auto simp add: add_skills_section_def add_section_header_def add_blank_para_def
      not_projects_header_built skills_line_no_projects intro!: foldl_list_all)

text \<open>
  C3 (as amended). For every text without the marker \<open>===PROJECTS===\<close> and every
  template, the document that the decoder builds has no projects section at all: it is
  built from the header, education, experience and skills sections alone, and none of
  its paragraphs is the PROJECTS header. Decoding returns \<open>True\<close> and saves that
  document unless the text of one of its runs cannot be stored; then it returns
  \<open>False\<close> and saves nothing.
\<close>

theorem C3_no_projects_section:
  assumes "\<not> str_in (str ''===PROJECTS==='') txt"
  shows "(\<forall>p\<in>set (build_docx U txt). \<not> projects_header p)
       \<and> build_docx U txt =
           (let secs = parse_ai_structured_txt (clean_structured_txt txt) in
            add_skills_section
              (add_experience_section
                 (add_education_section (add_header_section U [] (get_lines secs HEADER))
                    (get_lines secs EDUCATION))
                 (get_lines secs EXPERIENCE))
              (get_lines secs SKILLS))
       \<and> structured_txt_to_docx U txt T =
           (if runs_storable U (build_docx U txt) then (True, Some (build_docx U txt))
            else (False, None))"
proof -
  have np: "get_lines (parse_ai_structured_txt (clean_structured_txt txt)) PROJECTS = []"
    using assms by (rule no_marker_no_projects_lines)
  have d: "build_docx U txt =
           (let secs = parse_ai_structured_txt (clean_structured_txt txt) in
            add_skills_section
              (add_experience_section
                 (add_education_section (add_header_section U [] (get_lines secs HEADER))
                    (get_lines secs EDUCATION))
                 (get_lines secs EXPERIENCE))
              (get_lines secs SKILLS))"
    by (simp add: build_docx_def Let_def np add_projects_section_def)
  have "list_all (\<lambda>p. \<not> projects_header p) (build_docx U txt)"
    unfolding d
    by (simp add: Let_def add_header_section_def header_lines_no_projects
        education_no_projects experience_no_projects skills_no_projects)
  then have "\<forall>p\<in>set (build_docx U txt). \<not> projects_header p"
    by (simp add: list_all_iff)
  moreover have "structured_txt_to_docx U txt T =
           (if runs_storable U (build_docx U txt) then (True, Some (build_docx U txt))
            else (False, None))"
    by (simp add: structured_txt_to_docx_def Let_def)
  ultimately show ?thesis using d by blast
qed

theorem C3_no_projects_section_witness:
  "\<not> str_in (str ''===PROJECTS==='') (str ''===HEADER==='' @ 10 # str ''Jane Doe'')
   \<and> structured_txt_to_docx ascii_tables (str ''===HEADER==='' @ 10 # str ''Jane Doe'') [] =
       (True, Some (build_docx ascii_tables (str ''===HEADER==='' @ 10 # str ''Jane Doe'')))
   \<and> list_all (\<lambda>p. \<not> projects_header p)
        (build_docx ascii_tables (str ''===HEADER==='' @ 10 # str ''Jane Doe''))"
proof -
  have a: "\<not> str_in (str ''===PROJECTS==='') (str ''===HEADER==='' @ 10 # str ''Jane Doe'')"
    by (simp add: text_defs)
  have r: "runs_storable ascii_tables
             (build_docx ascii_tables (str ''===HEADER==='' @ 10 # str ''Jane Doe''))"
    by (simp add: build_docx_Jane_Doe runs_storable_def) (simp add: text_defs)
  show ?thesis
    using C3_no_projects_section [OF a, of ascii_tables "[]"] a r by (simp add: list_all_iff)
qed

text \<open>
  C3 as stated fails twice. The template below has a PROJECTS section, the first text
  has no PROJECTS marker, and the decoded document holds the name, the EDUCATION header
  and one education entry: no paragraph of it has the text PROJECTS. The second text
  has no PROJECTS marker either and a control character (code point 1) in the name:
  decoding returns \<open>False\<close> and saves nothing.
\<close>

theorem C3_counterexample:
  "\<not> str_in (str ''===PROJECTS==='')
       (str ''===HEADER==='' @ 10 # str ''Jane Doe'' @ 10 # str ''===EDUCATION===''
          @ 10 # str ''State University | 2020'')
   \<and> map_prod id (map_option (map ptext)) (structured_txt_to_docx ascii_tables
       (str ''===HEADER==='' @ 10 # str ''Jane Doe'' @ 10 # str ''===EDUCATION===''
          @ 10 # str ''State University | 2020'')
       [text_para 0 (str ''Jane Doe''), text_para 1 (str ''PROJECTS''),
        text_para 2 (str ''Acme | 2020'')]) =
     (True, Some [str ''Jane Doe'', str ''EDUCATION'', str ''State University | 2020''])
   \<and> \<not> str_in (str ''===PROJECTS==='') (str ''===HEADER==='' @ 10 # str ''Jane'' @ 1 # str ''Doe'')
   \<and> structured_txt_to_docx ascii_tables
       (str ''===HEADER==='' @ 10 # str ''Jane'' @ 1 # str ''Doe'')
       [text_para 0 (str ''Jane Doe''), text_para 1 (str ''PROJECTS''),
        text_para 2 (str ''Acme | 2020'')] = (False, None)"
  by (simp add: structured_txt_to_docx_def build_docx_def runs_storable_def
      clean_structured_txt_def clean_step_def
      formatting_keywords_def parse_ai_structured_txt_def parse_step_def
      save_and_start_section_def get_lines_def
      add_header_section_def add_education_section_def add_education_line_def
      add_section_header_def add_projects_section_def
      add_experience_section_def add_skills_section_def format_name_correctly_def
      name_stoppers_def capitalize_word_def Let_def text_defs para_defs size_defs)

end
